theory Spec2Isabelle
  imports Main "HOL-Library.Product_Lexorder"
begin

section \<open>Verification of \<open>v_sokoban.py\<close>: Sokoban boards compiled to SMV models\<close>

text \<open>
  The program reads a Sokoban board in XSB notation (\<open>parse_xsb_board\<close>), prints a
  transition system for the nuXmv model checker (\<open>generate_smv_model\<close> with the
  predicate builders \<open>gen_in_bounds\<close>, \<open>gen_not_wall\<close>, \<open>gen_not_box\<close>,
  \<open>gen_free_cell\<close>, \<open>gen_box_at\<close>) and reads a move sequence back from the
  checker's report (\<open>extract_solution\<close>).

  Python strings are modelled as \<open>string\<close>; a \<open>char\<close> stands for a code point
  below 256. Coordinates and indices come from \<open>enumerate\<close> and \<open>len\<close> and are
  natural numbers. An exception of the source is a value \<open>Inl e\<close> of a sum type.
\<close>

subsection \<open>Python string primitives\<close>

datatype py_error = ValueError | TypeError | IndexError

text \<open>
  The characters for which \<open>str.isspace\<close> holds, among the code points below 256.
  \<open>str.strip()\<close> removes them at both ends, and \<open>\s\<close> of module \<open>re\<close> matches
  them.
\<close>

definition is_space :: "char \<Rightarrow> bool" where
  "is_space c \<longleftrightarrow> c \<in> set [CHR 0x09, CHR 0x0A, CHR 0x0B, CHR 0x0C, CHR 0x0D,
     CHR 0x1C, CHR 0x1D, CHR 0x1E, CHR 0x1F, CHR 0x20, CHR 0x85, CHR 0xA0]"

text \<open>\<open>s.lstrip()\<close>, \<open>s.rstrip()\<close> and \<open>s.strip()\<close>.\<close>

definition lstrip :: "string \<Rightarrow> string" where
  "lstrip s = dropWhile is_space s"

definition rstrip :: "string \<Rightarrow> string" where
  "rstrip s = rev (dropWhile is_space (rev s))"

definition strip :: "string \<Rightarrow> string" where
  "strip s = rstrip (lstrip s)"

text \<open>\<open>s.rstrip("\n")\<close>: every trailing line feed is removed.\<close>

definition rstrip_nl :: "string \<Rightarrow> string" where
  "rstrip_nl s = rev (dropWhile (\<lambda>c. c = CHR 0x0A) (rev s))"

text \<open>\<open>s.startswith(p)\<close>.\<close>

definition startswith :: "string \<Rightarrow> string \<Rightarrow> bool" where
  "startswith s p \<longleftrightarrow> take (length p) s = p"

text \<open>\<open>p in s\<close> on strings: \<open>p\<close> occurs in \<open>s\<close> as a contiguous substring.\<close>

fun str_in :: "string \<Rightarrow> string \<Rightarrow> bool" where
  "str_in p [] \<longleftrightarrow> p = []"
| "str_in p (c # cs) \<longleftrightarrow> startswith (c # cs) p \<or> str_in p cs"

text \<open>
  \<open>s.split(sep)\<close> for a separator of one character: one piece more than there are
  separators, so never an empty list.
\<close>

fun split_on :: "char \<Rightarrow> string \<Rightarrow> string list" where
  "split_on sep [] = [[]]"
| "split_on sep (c # cs) =
     (if c = sep then [] # split_on sep cs
      else (case split_on sep cs of
              [] \<Rightarrow> [[c]]
            | piece # pieces \<Rightarrow> (c # piece) # pieces))"

text \<open>\<open>xs[-1]\<close>, which raises \<open>IndexError\<close> on an empty list.\<close>

definition last_item :: "'a list \<Rightarrow> py_error + 'a" where
  "last_item xs = (case xs of [] \<Rightarrow> Inl IndexError | _ # _ \<Rightarrow> Inr (last xs))"

text \<open>\<open>sep.join(xs)\<close>.\<close>

fun str_join :: "string \<Rightarrow> string list \<Rightarrow> string" where
  "str_join sep [] = []"
| "str_join sep [x] = x"
| "str_join sep (x # y # ys) = x @ sep @ str_join sep (y # ys)"

subsection \<open>The trace decoder \<open>extract_solution\<close>\<close>

text \<open>The character class \<open>[lurdLURD]\<close> of the annotation pattern.\<close>

definition is_move_char :: "char \<Rightarrow> bool" where
  "is_move_char c \<longleftrightarrow> c \<in> set ''lurdLURD''"

text \<open>
  The pattern \<open>Solution:\s*LURD moves:\s*([lurdLURD]+)\<close> tried at the start of
  \<open>s\<close>; the result is group 1. Both \<open>\s*\<close> and the group are greedy, and no
  shorter choice can make the rest of the pattern match: the literal \<open>LURD moves:\<close> and the
  class \<open>[lurdLURD]\<close> do not begin with white space.
\<close>

definition match_here :: "string \<Rightarrow> string option" where
  "match_here s =
     (if startswith s ''Solution:'' then
        (let r1 = dropWhile is_space (drop (length ''Solution:'') s) in
         if startswith r1 ''LURD moves:'' then
           (let r2 = dropWhile is_space (drop (length ''LURD moves:'') r1);
                g = takeWhile is_move_char r2
            in if g = [] then None else Some g)
         else None)
      else None)"

text \<open>\<open>re.search\<close>: the match at the leftmost position that has one.\<close>

fun re_search :: "string \<Rightarrow> string option" where
  "re_search [] = match_here []"
| "re_search (c # cs) =
     (case match_here (c # cs) of
        Some g \<Rightarrow> Some g
      | None \<Rightarrow> re_search cs)"

text \<open>
  The second tier, one line at a time: the body of the loop over
  \<open>nuxmv_output.split("\n")\<close>, with \<open>lurds\<close> the list built so far.
\<close>

definition scan_line :: "string \<Rightarrow> string list \<Rightarrow> py_error + string list" where
  "scan_line line lurds =
     (if str_in ''move ='' line then
        (case last_item (split_on CHR ''='' line) of
           Inl e \<Rightarrow> Inl e
         | Inr piece \<Rightarrow>
             (let move = strip piece in
              if str_in move ''lurdLURD'' then Inr (lurds @ [move]) else Inr lurds))
      else Inr lurds)"

fun scan_lines :: "string list \<Rightarrow> string list \<Rightarrow> py_error + string list" where
  "scan_lines [] lurds = Inr lurds"
| "scan_lines (line # rest) lurds =
     (case scan_line line lurds of
        Inl e \<Rightarrow> Inl e
      | Inr lurds' \<Rightarrow> scan_lines rest lurds')"

text \<open>\<open>None\<close> is the source's \<open>None\<close>: no solution.\<close>

definition extract_solution :: "string \<Rightarrow> py_error + string option" where
  "extract_solution nuxmv_output =
     (case re_search nuxmv_output of
        Some g \<Rightarrow> Inr (Some g)
      | None \<Rightarrow>
          (case scan_lines (split_on CHR 0x0A nuxmv_output) [] of
             Inl e \<Rightarrow> Inl e
           | Inr lurds \<Rightarrow>
               if lurds \<noteq> [] then Inr (Some (concat lurds)) else Inr None))"

text \<open>
  The test that a line passes to add its value to \<open>lurds\<close>, and the value it adds.
\<close>

definition assigned_value :: "string \<Rightarrow> string" where
  "assigned_value line = strip (last (split_on CHR ''='' line))"

definition accepted :: "string \<Rightarrow> bool" where
  "accepted line \<longleftrightarrow> str_in ''move ='' line \<and> str_in (assigned_value line) ''lurdLURD''"

subsection \<open>The board parser \<open>parse_xsb_board\<close>\<close>

text \<open>
  The dictionary that \<open>parse_xsb_board\<close> returns, one field for each key. \<open>walls\<close> is
  a Python set, \<open>player\<close> is \<open>None\<close> or a pair.
\<close>

record parsed_board =
  board :: "string list"
  width :: nat
  height :: nat
  walls :: "(nat \<times> nat) set"
  targets :: "(nat \<times> nat) list"
  boxes :: "(nat \<times> nat) list"
  player :: "(nat \<times> nat) option"

text \<open>
  Iterating over an open text file: the lines of the text, each with its line feed (the
  last line may lack one). The argument is the text of the file as Python reads it.
\<close>

fun file_lines :: "string \<Rightarrow> string list" where
  "file_lines [] = []"
| "file_lines (c # cs) =
     (if c = CHR 0x0A then [c] # file_lines cs
      else (case file_lines cs of
              [] \<Rightarrow> [[c]]
            | line # rest \<Rightarrow> (c # line) # rest))"

text \<open>\<open>line.ljust(width)\<close>: padded with spaces on the right.\<close>

definition ljust :: "string \<Rightarrow> nat \<Rightarrow> string" where
  "ljust line w = line @ replicate (w - length line) CHR '' ''"

text \<open>
  The body of the inner loop at cell \<open>(x, y)\<close> holding \<open>ch\<close>: an \<open>if\<close>/\<open>elif\<close>
  for wall and target, then two independent \<open>if\<close>s for box and player.
\<close>

definition scan_cell :: "nat \<Rightarrow> nat \<times> char \<Rightarrow> parsed_board \<Rightarrow> parsed_board" where
  "scan_cell y = (\<lambda>(x, ch) st.
     (let st1 = (if ch = CHR ''#'' then st\<lparr>walls := insert (x, y) (walls st)\<rparr>
                 else if ch \<in> set ''.+*'' then st\<lparr>targets := targets st @ [(x, y)]\<rparr>
                 else st);
          st2 = (if ch \<in> set ''$*'' then st1\<lparr>boxes := boxes st1 @ [(x, y)]\<rparr> else st1)
      in if ch \<in> set ''@+'' then st2\<lparr>player := Some (x, y)\<rparr> else st2))"

text \<open>The body of the outer loop at line \<open>y\<close>.\<close>

definition scan_row :: "nat \<Rightarrow> nat \<times> string \<Rightarrow> parsed_board \<Rightarrow> parsed_board" where
  "scan_row w = (\<lambda>(y, line) st.
     (let row = ljust line w
      in fold (scan_cell y) (enumerate 0 row) (st\<lparr>board := board st @ [row]\<rparr>)))"

text \<open>
  The list \<open>lines\<close>: the lines that are not blank, without their line feeds.
\<close>

definition nonblank_lines :: "string \<Rightarrow> string list" where
  "nonblank_lines text = map rstrip_nl (filter (\<lambda>line. strip line \<noteq> []) (file_lines text))"

text \<open>
  \<open>max\<close> of an empty sequence raises \<open>ValueError\<close>: a text without a line that is
  not blank has no board.
\<close>

definition parse_xsb_board :: "string \<Rightarrow> py_error + parsed_board" where
  "parse_xsb_board text =
     (let lines = nonblank_lines text
      in if lines = [] then Inl ValueError
         else Inr (fold (scan_row (Max (set (map length lines)))) (enumerate 0 lines)
                \<lparr>board = [], width = Max (set (map length lines)), height = length lines,
                 walls = {}, targets = [], boxes = [], player = None\<rparr>))"

text \<open>
  The cells of a grid of lines whose character satisfies \<open>P\<close>, row by row from the top
  and from left to right within a row: the order in which the two loops visit them.
\<close>

definition row_cells :: "(char \<Rightarrow> bool) \<Rightarrow> nat \<Rightarrow> nat \<Rightarrow> string \<Rightarrow> (nat \<times> nat) list" where
  "row_cells P y n line = map (\<lambda>(x, ch). (x, y)) (filter (\<lambda>(x, ch). P ch) (enumerate n line))"

definition marked_cells :: "(char \<Rightarrow> bool) \<Rightarrow> nat \<Rightarrow> string list \<Rightarrow> (nat \<times> nat) list" where
  "marked_cells P n lines = concat (map (\<lambda>(y, line). row_cells P y 0 line) (enumerate n lines))"

definition is_player_mark :: "char \<Rightarrow> bool" where
  "is_player_mark ch \<longleftrightarrow> ch \<in> set ''@+''"

definition is_target_mark :: "char \<Rightarrow> bool" where
  "is_target_mark ch \<longleftrightarrow> ch \<in> set ''.+*''"

definition is_box_mark :: "char \<Rightarrow> bool" where
  "is_box_mark ch \<longleftrightarrow> ch \<in> set ''$*''"

subsection \<open>The predicate builders\<close>

text \<open>An f-string field \<open>{n}\<close> for a natural number: its decimal digits.\<close>

definition digit_char :: "nat \<Rightarrow> char" where
  "digit_char n = ''0123456789'' ! n"

function str_nat :: "nat \<Rightarrow> string" where
  "str_nat n = (if n < 10 then [digit_char n] else str_nat (n div 10) @ [digit_char (n mod 10)])"
  by pat_completeness auto
termination
  by (relation "measure id") auto

declare str_nat.simps [simp del]

definition gen_in_bounds :: "string \<Rightarrow> string \<Rightarrow> string" where
  "gen_in_bounds expr_x expr_y =
     ''('' @ expr_x @ '' >= 0 & '' @ expr_x @ '' < WIDTH & '' @ expr_y @ '' >= 0 & ''
       @ expr_y @ '' < HEIGHT)''"

text \<open>
  The loop of \<open>gen_not_wall\<close> runs over a Python set, whose order of iteration the
  language leaves open. The order is the parameter \<open>iter\<close>, which lists the elements of a
  set; every property below holds for each such order.
\<close>

type_synonym set_order = "(nat \<times> nat) set \<Rightarrow> (nat \<times> nat) list"

definition gen_not_wall :: "set_order \<Rightarrow> string \<Rightarrow> string \<Rightarrow> (nat \<times> nat) set \<Rightarrow> string" where
  "gen_not_wall iter expr_x expr_y ws =
     (if ws = {} then ''TRUE''
      else ''('' @ str_join '' & ''
             (map (\<lambda>(wx, wy). ''!(('' @ expr_x @ '' = '' @ str_nat wx @ '') & ('' @ expr_y
                     @ '' = '' @ str_nat wy @ ''))'') (iter ws)) @ '')'')"

text \<open>The disjunct \<open>((ex = box_x[i]) & (ey = box_y[i]))\<close> of both box predicates.\<close>

definition box_cond :: "string \<Rightarrow> string \<Rightarrow> nat \<Rightarrow> string" where
  "box_cond expr_x expr_y i =
     ''(('' @ expr_x @ '' = box_x['' @ str_nat i @ '']) & ('' @ expr_y @ '' = box_y[''
       @ str_nat i @ '']))''"

definition gen_not_box :: "string \<Rightarrow> string \<Rightarrow> nat \<Rightarrow> string" where
  "gen_not_box expr_x expr_y num_boxes =
     (if num_boxes = 0 then ''TRUE''
      else ''!('' @ str_join '' | '' (map (box_cond expr_x expr_y) [1..<num_boxes + 1]) @ '')'')"

definition gen_free_cell :: "set_order \<Rightarrow> string \<Rightarrow> string \<Rightarrow> (nat \<times> nat) set \<Rightarrow> nat \<Rightarrow> string" where
  "gen_free_cell iter expr_x expr_y ws num_boxes =
     ''('' @ gen_in_bounds expr_x expr_y @ '' & '' @ gen_not_wall iter expr_x expr_y ws
       @ '' & '' @ gen_not_box expr_x expr_y num_boxes @ '')''"

definition gen_box_at :: "string \<Rightarrow> string \<Rightarrow> nat \<Rightarrow> string" where
  "gen_box_at expr_x expr_y num_boxes =
     (if num_boxes = 0 then ''FALSE''
      else ''('' @ str_join '' | '' (map (box_cond expr_x expr_y) [1..<num_boxes + 1]) @ '')'')"

subsection \<open>The model synthesizer \<open>generate_smv_model\<close>\<close>

text \<open>The lines up to \<open>ASSIGN\<close>.\<close>

definition declaration_lines :: "nat \<Rightarrow> nat \<Rightarrow> nat \<Rightarrow> string list" where
  "declaration_lines w h num_boxes =
     [''-- Automatically generated SMV model for Sokoban'',
      ''MODULE main'',
      ''CONSTANTS'',
      ''    WIDTH := '' @ str_nat w @ '';'',
      ''    HEIGHT := '' @ str_nat h @ '';'',
      ''    NUM_BOXES := '' @ str_nat num_boxes @ '';'',
      [],
      ''VAR'',
      ''    player_x : 0..WIDTH-1;'',
      ''    player_y : 0..HEIGHT-1;'',
      ''    box_x : array 1..NUM_BOXES of 0..WIDTH-1;'',
      ''    box_y : array 1..NUM_BOXES of 0..HEIGHT-1;'',
      ''    move : {l, r, u, d, L, R, U, D};'',
      [],
      ''ASSIGN'']"

text \<open>The initial position of the player, then of each box (numbered from 1).\<close>

definition init_player_lines :: "nat \<times> nat \<Rightarrow> string list" where
  "init_player_lines p =
     [''    init(player_x) := '' @ str_nat (fst p) @ '';'',
      ''    init(player_y) := '' @ str_nat (snd p) @ '';'']"

definition init_box_lines :: "nat \<times> (nat \<times> nat) \<Rightarrow> string list" where
  "init_box_lines = (\<lambda>(i, (bx, by)).
     [''    init(box_x['' @ str_nat i @ '']) := '' @ str_nat bx @ '';'',
      ''    init(box_y['' @ str_nat i @ '']) := '' @ str_nat by @ '';''])"

text \<open>The conditions of the four simple moves and of the four pushes.\<close>

definition free_left :: "set_order \<Rightarrow> (nat \<times> nat) set \<Rightarrow> nat \<Rightarrow> string" where
  "free_left iter ws n = gen_free_cell iter ''player_x - 1'' ''player_y'' ws n"

definition free_right :: "set_order \<Rightarrow> (nat \<times> nat) set \<Rightarrow> nat \<Rightarrow> string" where
  "free_right iter ws n = gen_free_cell iter ''player_x + 1'' ''player_y'' ws n"

definition free_up :: "set_order \<Rightarrow> (nat \<times> nat) set \<Rightarrow> nat \<Rightarrow> string" where
  "free_up iter ws n = gen_free_cell iter ''player_x'' ''player_y - 1'' ws n"

definition free_down :: "set_order \<Rightarrow> (nat \<times> nat) set \<Rightarrow> nat \<Rightarrow> string" where
  "free_down iter ws n = gen_free_cell iter ''player_x'' ''player_y + 1'' ws n"

definition push_left :: "set_order \<Rightarrow> (nat \<times> nat) set \<Rightarrow> nat \<Rightarrow> string" where
  "push_left iter ws n =
     ''('' @ gen_box_at ''player_x - 1'' ''player_y'' n @ '' & ''
       @ gen_free_cell iter ''player_x - 2'' ''player_y'' ws n @ '')''"

definition push_right :: "set_order \<Rightarrow> (nat \<times> nat) set \<Rightarrow> nat \<Rightarrow> string" where
  "push_right iter ws n =
     ''('' @ gen_box_at ''player_x + 1'' ''player_y'' n @ '' & ''
       @ gen_free_cell iter ''player_x + 2'' ''player_y'' ws n @ '')''"

definition push_up :: "set_order \<Rightarrow> (nat \<times> nat) set \<Rightarrow> nat \<Rightarrow> string" where
  "push_up iter ws n =
     ''('' @ gen_box_at ''player_x'' ''player_y - 1'' n @ '' & ''
       @ gen_free_cell iter ''player_x'' ''player_y - 2'' ws n @ '')''"

definition push_down :: "set_order \<Rightarrow> (nat \<times> nat) set \<Rightarrow> nat \<Rightarrow> string" where
  "push_down iter ws n =
     ''('' @ gen_box_at ''player_x'' ''player_y + 1'' n @ '' & ''
       @ gen_free_cell iter ''player_x'' ''player_y + 2'' ws n @ '')''"

text \<open>The two case expressions of the player.\<close>

definition next_player_x_lines :: "set_order \<Rightarrow> (nat \<times> nat) set \<Rightarrow> nat \<Rightarrow> string list" where
  "next_player_x_lines iter ws n =
     [''    next(player_x) := case'',
      ''        move = l & '' @ free_left iter ws n @ '' : player_x - 1;'',
      ''        move = r & '' @ free_right iter ws n @ '' : player_x + 1;'',
      ''        move = u & '' @ free_up iter ws n @ '' : player_x;'',
      ''        move = d & '' @ free_down iter ws n @ '' : player_x;'',
      ''        move = L & '' @ push_left iter ws n @ '' : player_x - 1;'',
      ''        move = R & '' @ push_right iter ws n @ '' : player_x + 1;'',
      ''        move = U & '' @ push_up iter ws n @ '' : player_x;'',
      ''        move = D & '' @ push_down iter ws n @ '' : player_x;'',
      ''        TRUE : player_x;'',
      ''    esac;'',
      []]"

definition next_player_y_lines :: "set_order \<Rightarrow> (nat \<times> nat) set \<Rightarrow> nat \<Rightarrow> string list" where
  "next_player_y_lines iter ws n =
     [''    next(player_y) := case'',
      ''        move = l & '' @ free_left iter ws n @ '' : player_y;'',
      ''        move = r & '' @ free_right iter ws n @ '' : player_y;'',
      ''        move = u & '' @ free_up iter ws n @ '' : player_y - 1;'',
      ''        move = d & '' @ free_down iter ws n @ '' : player_y + 1;'',
      ''        move = L & '' @ push_left iter ws n @ '' : player_y;'',
      ''        move = R & '' @ push_right iter ws n @ '' : player_y;'',
      ''        move = U & '' @ push_up iter ws n @ '' : player_y - 1;'',
      ''        move = D & '' @ push_down iter ws n @ '' : player_y + 1;'',
      ''        TRUE : player_y;'',
      ''    esac;'',
      []]"

text \<open>The body of the loop over the boxes: the two case expressions of box \<open>i\<close>.\<close>

definition next_box_lines :: "set_order \<Rightarrow> (nat \<times> nat) set \<Rightarrow> nat \<Rightarrow> nat \<Rightarrow> string list" where
  "next_box_lines iter ws n i =
     [''    next(box_x['' @ str_nat i @ '']) := case'',
      ''        move = L & (box_x['' @ str_nat i @ ''] = player_x - 1 & box_y['' @ str_nat i
        @ ''] = player_y) & '' @ gen_free_cell iter ''player_x - 2'' ''player_y'' ws n
        @ '' : box_x['' @ str_nat i @ ''] - 1;'',
      ''        move = R & (box_x['' @ str_nat i @ ''] = player_x + 1 & box_y['' @ str_nat i
        @ ''] = player_y) & '' @ gen_free_cell iter ''player_x + 2'' ''player_y'' ws n
        @ '' : box_x['' @ str_nat i @ ''] + 1;'',
      ''        TRUE : box_x['' @ str_nat i @ ''];'',
      ''    esac;'',
      ''    next(box_y['' @ str_nat i @ '']) := case'',
      ''        move = U & (box_x['' @ str_nat i @ ''] = player_x & box_y['' @ str_nat i
        @ ''] = player_y - 1) & '' @ gen_free_cell iter ''player_x'' ''player_y - 2'' ws n
        @ '' : box_y['' @ str_nat i @ ''] - 1;'',
      ''        move = D & (box_x['' @ str_nat i @ ''] = player_x & box_y['' @ str_nat i
        @ ''] = player_y + 1) & '' @ gen_free_cell iter ''player_x'' ''player_y + 2'' ws n
        @ '' : box_y['' @ str_nat i @ ''] + 1;'',
      ''        TRUE : box_y['' @ str_nat i @ ''];'',
      ''    esac;'',
      []]"

text \<open>
  The winning condition: one conjunct for each pair of
  \<open>enumerate(targets[:num_boxes], start=1)\<close>.
\<close>

definition win_condition :: "nat \<times> (nat \<times> nat) \<Rightarrow> string" where
  "win_condition = (\<lambda>(i, (tx, ty)).
     ''(box_x['' @ str_nat i @ ''] = '' @ str_nat tx @ '' & box_y['' @ str_nat i @ ''] = ''
       @ str_nat ty @ '')'')"

definition win_conditions :: "(nat \<times> nat) list \<Rightarrow> nat \<Rightarrow> string list" where
  "win_conditions ts num_boxes = map win_condition (enumerate 1 (take num_boxes ts))"

definition win_lines :: "(nat \<times> nat) list \<Rightarrow> nat \<Rightarrow> string list" where
  "win_lines ts num_boxes =
     [''DEFINE'',
      ''    win := '' @ str_join '' & '' (win_conditions ts num_boxes) @ '';'',
      []]"

definition ltlspec_lines :: "string list" where
  "ltlspec_lines =
     [''-- LTL specification: eventually reach a winning state'',
      ''LTLSPEC'',
      ''    F win'',
      []]"

text \<open>\<open>targets.sort(key=lambda pos: (pos[1], pos[0]))\<close>: a stable sort by row, then column.\<close>

definition sort_targets :: "(nat \<times> nat) list \<Rightarrow> (nat \<times> nat) list" where
  "sort_targets ts = sort_key (\<lambda>pos. (snd pos, fst pos)) ts"

text \<open>
  All lines of the model, for a board with a player at \<open>p\<close> and its targets \<open>ts\<close>
  already sorted.
\<close>

definition smv_lines ::
  "set_order \<Rightarrow> parsed_board \<Rightarrow> (nat \<times> nat) list \<Rightarrow> nat \<times> nat \<Rightarrow> string list" where
  "smv_lines iter parsed_board ts p =
     (let num_boxes = length (boxes parsed_board); ws = walls parsed_board
      in declaration_lines (width parsed_board) (height parsed_board) num_boxes
         @ init_player_lines p
         @ concat (map init_box_lines (enumerate 1 (boxes parsed_board)))
         @ [[]]
         @ next_player_x_lines iter ws num_boxes
         @ next_player_y_lines iter ws num_boxes
         @ concat (map (next_box_lines iter ws num_boxes) [1..<num_boxes + 1])
         @ win_lines ts num_boxes
         @ ltlspec_lines)"

text \<open>
  \<open>generate_smv_model\<close> sorts the list \<open>parsed_board["targets"]\<close> in place before it
  does anything else, so the caller's dictionary is part of the result: the first component
  is the dictionary after the call. Reading \<open>player[0]\<close> of a player that is \<open>None\<close>
  raises \<open>TypeError\<close>.
\<close>

definition generate_smv_model ::
  "set_order \<Rightarrow> parsed_board \<Rightarrow> parsed_board \<times> (py_error + string)" where
  "generate_smv_model iter parsed_board =
     (let ts = sort_targets (targets parsed_board);
          parsed_board' = parsed_board\<lparr>targets := ts\<rparr>
      in (parsed_board',
          (case player parsed_board of
             None \<Rightarrow> Inl TypeError
           | Some p \<Rightarrow> Inr (str_join [CHR 0x0A] (smv_lines iter parsed_board ts p)))))"

subsection \<open>Reading the emitted expressions\<close>

text \<open>
  The synthesizer builds its expressions as text. To say what a guard means, the same
  expressions are built a second time as syntax trees, shaped like the text: \<open>Paren\<close> is
  a pair of parentheses, \<open>Conj\<close> and \<open>Disj\<close> are a row of operands separated by
  \<open>&\<close> and \<open>|\<close>. The functions \<open>show_aexp\<close> and \<open>show_bexp\<close> print a tree, and
  the printed trees are proved equal to the text of the builders, character by character.
  The trees follow the precedences of SMV: arithmetic binds tighter than a comparison, a
  comparison tighter than \<open>&\<close>, and everything else is in parentheses.
\<close>

datatype move = Step_l | Step_r | Step_u | Step_d | Push_L | Push_R | Push_U | Push_D

datatype var = Player_x | Player_y | Box_x nat | Box_y nat | WIDTH | HEIGHT

datatype aexp = V var | N nat | Plus aexp nat | Minus aexp nat

datatype bexp =
    TRUE
  | FALSE
  | Move_is move
  | Eq aexp aexp
  | Ge aexp aexp
  | Lt aexp aexp
  | Neg bexp
  | Paren bexp
  | Conj "bexp list"
  | Disj "bexp list"

fun show_move :: "move \<Rightarrow> string" where
  "show_move Step_l = ''l''"
| "show_move Step_r = ''r''"
| "show_move Step_u = ''u''"
| "show_move Step_d = ''d''"
| "show_move Push_L = ''L''"
| "show_move Push_R = ''R''"
| "show_move Push_U = ''U''"
| "show_move Push_D = ''D''"

fun show_var :: "var \<Rightarrow> string" where
  "show_var Player_x = ''player_x''"
| "show_var Player_y = ''player_y''"
| "show_var (Box_x i) = ''box_x['' @ str_nat i @ '']''"
| "show_var (Box_y i) = ''box_y['' @ str_nat i @ '']''"
| "show_var WIDTH = ''WIDTH''"
| "show_var HEIGHT = ''HEIGHT''"

fun show_aexp :: "aexp \<Rightarrow> string" where
  "show_aexp (V v) = show_var v"
| "show_aexp (N n) = str_nat n"
| "show_aexp (Plus a n) = show_aexp a @ '' + '' @ str_nat n"
| "show_aexp (Minus a n) = show_aexp a @ '' - '' @ str_nat n"

fun show_bexp :: "bexp \<Rightarrow> string" where
  "show_bexp TRUE = ''TRUE''"
| "show_bexp FALSE = ''FALSE''"
| "show_bexp (Move_is m) = ''move = '' @ show_move m"
| "show_bexp (Eq a b) = show_aexp a @ '' = '' @ show_aexp b"
| "show_bexp (Ge a b) = show_aexp a @ '' >= '' @ show_aexp b"
| "show_bexp (Lt a b) = show_aexp a @ '' < '' @ show_aexp b"
| "show_bexp (Neg b) = ''!'' @ show_bexp b"
| "show_bexp (Paren b) = ''('' @ show_bexp b @ '')''"
| "show_bexp (Conj bs) = str_join '' & '' (map show_bexp bs)"
| "show_bexp (Disj bs) = str_join '' | '' (map show_bexp bs)"

text \<open>
  A state of the model gives a value to each state variable. The constants \<open>WIDTH\<close> and
  \<open>HEIGHT\<close> have the values \<open>w\<close> and \<open>h\<close> that the model declares. Expressions are
  over the integers: \<open>player_x - 1\<close> is \<open>-1\<close> at the left border.
\<close>

record state =
  player_x :: int
  player_y :: int
  box_x :: "nat \<Rightarrow> int"
  box_y :: "nat \<Rightarrow> int"
  move :: move

fun var_val :: "nat \<Rightarrow> nat \<Rightarrow> var \<Rightarrow> state \<Rightarrow> int" where
  "var_val w h Player_x s = player_x s"
| "var_val w h Player_y s = player_y s"
| "var_val w h (Box_x i) s = box_x s i"
| "var_val w h (Box_y i) s = box_y s i"
| "var_val w h WIDTH s = int w"
| "var_val w h HEIGHT s = int h"

fun aval :: "nat \<Rightarrow> nat \<Rightarrow> aexp \<Rightarrow> state \<Rightarrow> int" where
  "aval w h (V v) s = var_val w h v s"
| "aval w h (N n) s = int n"
| "aval w h (Plus a n) s = aval w h a s + int n"
| "aval w h (Minus a n) s = aval w h a s - int n"

fun bval :: "nat \<Rightarrow> nat \<Rightarrow> bexp \<Rightarrow> state \<Rightarrow> bool" where
  "bval w h TRUE s \<longleftrightarrow> True"
| "bval w h FALSE s \<longleftrightarrow> False"
| "bval w h (Move_is m) s \<longleftrightarrow> move s = m"
| "bval w h (Eq a b) s \<longleftrightarrow> aval w h a s = aval w h b s"
| "bval w h (Ge a b) s \<longleftrightarrow> aval w h a s \<ge> aval w h b s"
| "bval w h (Lt a b) s \<longleftrightarrow> aval w h a s < aval w h b s"
| "bval w h (Neg b) s \<longleftrightarrow> \<not> bval w h b s"
| "bval w h (Paren b) s \<longleftrightarrow> bval w h b s"
| "bval w h (Conj bs) s \<longleftrightarrow> list_all (\<lambda>b. bval w h b s) bs"
| "bval w h (Disj bs) s \<longleftrightarrow> list_ex (\<lambda>b. bval w h b s) bs"

text \<open>
  A case expression is a list of branches \<open>guard : value;\<close>. Its value is that of the
  first branch whose guard holds; it has none when no guard holds.
\<close>

type_synonym branch = "bexp \<times> aexp"

definition show_branch :: "branch \<Rightarrow> string" where
  "show_branch = (\<lambda>(g, a). ''        '' @ show_bexp g @ '' : '' @ show_aexp a @ '';'')"

definition show_next :: "var \<Rightarrow> branch list \<Rightarrow> string list" where
  "show_next v branches =
     [''    next('' @ show_var v @ '') := case''] @ map show_branch branches @ [''    esac;'']"

fun case_val :: "nat \<Rightarrow> nat \<Rightarrow> branch list \<Rightarrow> state \<Rightarrow> int option" where
  "case_val w h [] s = None"
| "case_val w h ((g, a) # branches) s =
     (if bval w h g s then Some (aval w h a s) else case_val w h branches s)"

text \<open>The trees of the predicate builders; \<open>ws\<close> is the list of the walls in the order of iteration.\<close>

definition in_bounds :: "aexp \<Rightarrow> aexp \<Rightarrow> bexp" where
  "in_bounds ex ey =
     Paren (Conj [Ge ex (N 0), Lt ex (V WIDTH), Ge ey (N 0), Lt ey (V HEIGHT)])"

definition not_wall :: "(nat \<times> nat) list \<Rightarrow> aexp \<Rightarrow> aexp \<Rightarrow> bexp" where
  "not_wall ws ex ey =
     (if ws = [] then TRUE
      else Paren (Conj (map (\<lambda>(wx, wy).
             Neg (Paren (Conj [Paren (Eq ex (N wx)), Paren (Eq ey (N wy))]))) ws)))"

definition box_here :: "aexp \<Rightarrow> aexp \<Rightarrow> nat \<Rightarrow> bexp" where
  "box_here ex ey i =
     Paren (Conj [Paren (Eq ex (V (Box_x i))), Paren (Eq ey (V (Box_y i)))])"

definition not_box :: "nat \<Rightarrow> aexp \<Rightarrow> aexp \<Rightarrow> bexp" where
  "not_box n ex ey =
     (if n = 0 then TRUE else Neg (Paren (Disj (map (box_here ex ey) [1..<n + 1]))))"

definition free_cell :: "(nat \<times> nat) list \<Rightarrow> nat \<Rightarrow> aexp \<Rightarrow> aexp \<Rightarrow> bexp" where
  "free_cell ws n ex ey = Paren (Conj [in_bounds ex ey, not_wall ws ex ey, not_box n ex ey])"

definition box_at :: "nat \<Rightarrow> aexp \<Rightarrow> aexp \<Rightarrow> bexp" where
  "box_at n ex ey =
     (if n = 0 then FALSE else Paren (Disj (map (box_here ex ey) [1..<n + 1])))"

text \<open>
  The cell one step (\<open>k = 1\<close>) or two steps (\<open>k = 2\<close>) from the player in the
  direction of a move, as the pair of coordinate expressions the synthesizer writes.
\<close>

fun cell_x :: "move \<Rightarrow> nat \<Rightarrow> aexp" where
  "cell_x Step_l k = Minus (V Player_x) k"
| "cell_x Push_L k = Minus (V Player_x) k"
| "cell_x Step_r k = Plus (V Player_x) k"
| "cell_x Push_R k = Plus (V Player_x) k"
| "cell_x m k = V Player_x"

fun cell_y :: "move \<Rightarrow> nat \<Rightarrow> aexp" where
  "cell_y Step_u k = Minus (V Player_y) k"
| "cell_y Push_U k = Minus (V Player_y) k"
| "cell_y Step_d k = Plus (V Player_y) k"
| "cell_y Push_D k = Plus (V Player_y) k"
| "cell_y m k = V Player_y"

text \<open>
  The condition of a move: \<open>free_left\<close>, ..., \<open>push_down\<close> of the source. A simple move
  needs the next cell free, a push needs a box in the next cell and the cell behind it free.
\<close>

definition is_push :: "move \<Rightarrow> bool" where
  "is_push m \<longleftrightarrow> m \<in> {Push_L, Push_R, Push_U, Push_D}"

definition move_cond :: "(nat \<times> nat) list \<Rightarrow> nat \<Rightarrow> move \<Rightarrow> bexp" where
  "move_cond ws n m =
     (if is_push m
      then Paren (Conj [box_at n (cell_x m 1) (cell_y m 1), free_cell ws n (cell_x m 2) (cell_y m 2)])
      else free_cell ws n (cell_x m 1) (cell_y m 1))"

definition move_guard :: "(nat \<times> nat) list \<Rightarrow> nat \<Rightarrow> move \<Rightarrow> bexp" where
  "move_guard ws n m = Conj [Move_is m, move_cond ws n m]"

definition all_moves :: "move list" where
  "all_moves = [Step_l, Step_r, Step_u, Step_d, Push_L, Push_R, Push_U, Push_D]"

text \<open>The branches of \<open>next(player_x)\<close> and \<open>next(player_y)\<close>, in the order of the source.\<close>

definition player_x_branches :: "(nat \<times> nat) list \<Rightarrow> nat \<Rightarrow> branch list" where
  "player_x_branches ws n =
     map (\<lambda>m. (move_guard ws n m, cell_x m 1)) all_moves @ [(TRUE, V Player_x)]"

definition player_y_branches :: "(nat \<times> nat) list \<Rightarrow> nat \<Rightarrow> branch list" where
  "player_y_branches ws n =
     map (\<lambda>m. (move_guard ws n m, cell_y m 1)) all_moves @ [(TRUE, V Player_y)]"

text \<open>
  The guard of a branch of box \<open>i\<close>: the push \<open>m\<close> is selected, box \<open>i\<close> is in the cell
  next to the player in the direction of \<open>m\<close>, and the cell behind it is free.
\<close>

definition box_guard :: "(nat \<times> nat) list \<Rightarrow> nat \<Rightarrow> nat \<Rightarrow> move \<Rightarrow> bexp" where
  "box_guard ws n i m =
     Conj [Move_is m,
           Paren (Conj [Eq (V (Box_x i)) (cell_x m 1), Eq (V (Box_y i)) (cell_y m 1)]),
           free_cell ws n (cell_x m 2) (cell_y m 2)]"

definition box_x_branches :: "(nat \<times> nat) list \<Rightarrow> nat \<Rightarrow> nat \<Rightarrow> branch list" where
  "box_x_branches ws n i =
     [(box_guard ws n i Push_L, Minus (V (Box_x i)) 1),
      (box_guard ws n i Push_R, Plus (V (Box_x i)) 1),
      (TRUE, V (Box_x i))]"

definition box_y_branches :: "(nat \<times> nat) list \<Rightarrow> nat \<Rightarrow> nat \<Rightarrow> branch list" where
  "box_y_branches ws n i =
     [(box_guard ws n i Push_U, Minus (V (Box_y i)) 1),
      (box_guard ws n i Push_D, Plus (V (Box_y i)) 1),
      (TRUE, V (Box_y i))]"

text \<open>
  The transition system that the \<open>ASSIGN\<close> section of the model for a board describes: the
  assignments \<open>init(v) := n;\<close>, the states that satisfy them, and the next value of
  each coordinate.
\<close>

definition init_assignments :: "parsed_board \<Rightarrow> nat \<times> nat \<Rightarrow> (var \<times> nat) list" where
  "init_assignments b p =
     [(Player_x, fst p), (Player_y, snd p)]
     @ concat (map (\<lambda>(i, (bx, by)). [(Box_x i, bx), (Box_y i, by)]) (enumerate 1 (boxes b)))"

definition show_init :: "var \<times> nat \<Rightarrow> string" where
  "show_init = (\<lambda>(v, n). ''    init('' @ show_var v @ '') := '' @ str_nat n @ '';'')"

definition initial :: "parsed_board \<Rightarrow> nat \<times> nat \<Rightarrow> state \<Rightarrow> bool" where
  "initial b p s \<longleftrightarrow>
     list_all (\<lambda>(v, n). var_val (width b) (height b) v s = int n) (init_assignments b p)"

definition next_player_x :: "set_order \<Rightarrow> parsed_board \<Rightarrow> state \<Rightarrow> int option" where
  "next_player_x iter b s =
     case_val (width b) (height b) (player_x_branches (iter (walls b)) (length (boxes b))) s"

definition next_player_y :: "set_order \<Rightarrow> parsed_board \<Rightarrow> state \<Rightarrow> int option" where
  "next_player_y iter b s =
     case_val (width b) (height b) (player_y_branches (iter (walls b)) (length (boxes b))) s"

definition next_box_x :: "set_order \<Rightarrow> parsed_board \<Rightarrow> nat \<Rightarrow> state \<Rightarrow> int option" where
  "next_box_x iter b i s =
     case_val (width b) (height b) (box_x_branches (iter (walls b)) (length (boxes b)) i) s"

definition next_box_y :: "set_order \<Rightarrow> parsed_board \<Rightarrow> nat \<Rightarrow> state \<Rightarrow> int option" where
  "next_box_y iter b i s =
     case_val (width b) (height b) (box_y_branches (iter (walls b)) (length (boxes b)) i) s"

text \<open>
  What the guards are meant to say, stated on the board and the state directly: a box of
  the model stands at a cell, and a cell is free (inside the board, no wall, no box).
\<close>

definition box_on :: "parsed_board \<Rightarrow> state \<Rightarrow> int \<times> int \<Rightarrow> bool" where
  "box_on b s = (\<lambda>(x, y). \<exists>i\<in>{1..length (boxes b)}. box_x s i = x \<and> box_y s i = y)"

definition is_wall :: "parsed_board \<Rightarrow> int \<times> int \<Rightarrow> bool" where
  "is_wall b = (\<lambda>(x, y). \<exists>(wx, wy)\<in>walls b. x = int wx \<and> y = int wy)"

definition is_free :: "parsed_board \<Rightarrow> state \<Rightarrow> int \<times> int \<Rightarrow> bool" where
  "is_free b s = (\<lambda>(x, y).
     0 \<le> x \<and> x < int (width b) \<and> 0 \<le> y \<and> y < int (height b)
     \<and> \<not> is_wall b (x, y) \<and> \<not> box_on b s (x, y))"

text \<open>The cell \<open>k\<close> steps from the player in the direction of a move.\<close>

fun ahead :: "move \<Rightarrow> int \<Rightarrow> state \<Rightarrow> int \<times> int" where
  "ahead Step_l k s = (player_x s - k, player_y s)"
| "ahead Push_L k s = (player_x s - k, player_y s)"
| "ahead Step_r k s = (player_x s + k, player_y s)"
| "ahead Push_R k s = (player_x s + k, player_y s)"
| "ahead Step_u k s = (player_x s, player_y s - k)"
| "ahead Push_U k s = (player_x s, player_y s - k)"
| "ahead Step_d k s = (player_x s, player_y s + k)"
| "ahead Push_D k s = (player_x s, player_y s + k)"

text \<open>A set order lists the elements of the wall set of a board.\<close>

definition lists_walls :: "set_order \<Rightarrow> parsed_board \<Rightarrow> bool" where
  "lists_walls iter b \<longleftrightarrow> set (iter (walls b)) = walls b"

text \<open>
  A move can be made in a state: for a simple move the next cell is free, for a push a box
  stands in the next cell and the cell behind it is free. A push moves box \<open>i\<close> when it
  is selected, box \<open>i\<close> is the box in the next cell, and the cell behind it is free.
\<close>

definition can_move :: "parsed_board \<Rightarrow> state \<Rightarrow> move \<Rightarrow> bool" where
  "can_move b s m \<longleftrightarrow>
     (if is_push m then box_on b s (ahead m 1 s) \<and> is_free b s (ahead m 2 s)
      else is_free b s (ahead m 1 s))"

definition pushes_box :: "parsed_board \<Rightarrow> state \<Rightarrow> nat \<Rightarrow> move \<Rightarrow> bool" where
  "pushes_box b s i m \<longleftrightarrow>
     is_push m \<and> move s = m \<and> (box_x s i, box_y s i) = ahead m 1 s
     \<and> is_free b s (ahead m 2 s)"

text \<open>
  The board of the round-trip scenario, \<open>#####\<close> / \<open>#@$.#\<close> / \<open>#####\<close>, as
  the parser returns it, and its initial state with a move selected.
\<close>

definition scenario_board :: parsed_board where
  "scenario_board =
     \<lparr>board = [''#####'', ''#@$.#'', ''#####''], width = 5, height = 3,
      walls = {(0, 0), (1, 0), (2, 0), (3, 0), (4, 0), (0, 1), (4, 1),
               (0, 2), (1, 2), (2, 2), (3, 2), (4, 2)},
      targets = [(3, 1)], boxes = [(2, 1)], player = Some (1, 1)\<rparr>"

definition scenario_state :: "move \<Rightarrow> state" where
  "scenario_state m =
     \<lparr>player_x = 1, player_y = 1, box_x = (\<lambda>i. 2), box_y = (\<lambda>i. 1), move = m\<rparr>"

section \<open>Properties\<close>

subsection \<open>The trace decoder\<close>

lemma split_on_not_Nil: "split_on sep s \<noteq> []"
  by (induction s) (auto split: list.splits)

lemma last_item_split_on: "last_item (split_on sep s) = Inr (last (split_on sep s))"
  using split_on_not_Nil [of sep s] by (cases "split_on sep s") (simp_all add: last_item_def)

lemma scan_line_eq:
  "scan_line line lurds = Inr (if accepted line then lurds @ [assigned_value line] else lurds)"
  by (simp add: scan_line_def last_item_split_on Let_def accepted_def assigned_value_def)

lemma scan_lines_eq:
  "scan_lines ls lurds = Inr (lurds @ map assigned_value (filter accepted ls))"
  by (induction ls arbitrary: lurds) (simp_all add: scan_line_eq)

lemma extract_solution_eq:
  "extract_solution out =
     Inr (case re_search out of
            Some g \<Rightarrow> Some g
          | None \<Rightarrow>
              (let lurds = map assigned_value (filter accepted (split_on CHR 0x0A out))
               in if lurds \<noteq> [] then Some (concat lurds) else None))"
  by (simp add: extract_solution_def scan_lines_eq Let_def split: option.splits)

lemma re_search_skip:
  "\<forall>i<length pre. match_here (drop i (pre @ s)) = None \<Longrightarrow> re_search (pre @ s) = re_search s"
proof (induction pre)
  case Nil
  then show ?case by simp
next
  case (Cons p ps)
  have "match_here ((p # ps) @ s) = None"
    using Cons.prems by (metis drop0 length_greater_0_conv list.distinct(1))
  moreover have "\<forall>i<length ps. match_here (drop i (ps @ s)) = None"
  proof (intro allI impI)
    fix i assume "i < length ps"
    then have "Suc i < length (p # ps)" by simp
    with Cons.prems have "match_here (drop (Suc i) ((p # ps) @ s)) = None" by blast
    then show "match_here (drop i (ps @ s)) = None" by simp
  qed
  ultimately show ?case using Cons.IH by simp
qed

lemma re_search_here: "match_here s = Some g \<Longrightarrow> re_search s = Some g"
  by (cases s) simp_all

lemma match_here_annotation:
  assumes "\<forall>c\<in>set ws1. is_space c" "\<forall>c\<in>set ws2. is_space c" "g \<noteq> []"
    "\<forall>c\<in>set g. is_move_char c" "rest = [] \<or> \<not> is_move_char (hd rest)"
  shows "match_here (''Solution:'' @ ws1 @ ''LURD moves:'' @ ws2 @ g @ rest) = Some g"
proof -
  have L: "\<not> is_space CHR ''L''" by (simp add: is_space_def)
  have g0: "\<not> is_space (hd g)" using assms(3,4)
    by (cases g) (auto simp: is_space_def is_move_char_def)
  have 1: "dropWhile is_space (ws1 @ ''LURD moves:'' @ ws2 @ g @ rest) = ''LURD moves:'' @ ws2 @ g @ rest"
    using assms(1) L by (simp add: dropWhile_append3)
  have 2: "dropWhile is_space (ws2 @ g @ rest) = g @ rest"
    using assms(2,3) g0 by (cases g) (simp_all add: dropWhile_append3)
  have 3: "takeWhile is_move_char (g @ rest) = g"
    using assms(4,5) by (cases rest) simp_all
  show ?thesis
    unfolding match_here_def using 1 2 3 assms(3)
    by (simp add: startswith_def Let_def)
qed

lemma no_match_without_S:
  assumes "CHR ''S'' \<notin> set pre"
  shows "\<forall>i<length pre. match_here (drop i (pre @ s)) = None"
proof (intro allI impI)
  fix i assume i: "i < length pre"
  then have "drop i (pre @ s) = pre ! i # drop (Suc i) (pre @ s)"
    by (simp add: Cons_nth_drop_Suc nth_append)
  moreover have "pre ! i \<noteq> CHR ''S''"
    using assms i by (metis nth_mem)
  ultimately show "match_here (drop i (pre @ s)) = None"
    by (simp add: match_here_def startswith_def)
qed

text \<open>
  C4, where the code departs from the claim. The claim: the second tier collects exactly the
  assigned values that are one of the eight move symbols, and never an empty value or a
  token of several characters. The test of the source is \<open>move in "lurdLURD"\<close> on
  strings, which holds for every substring of \<open>lurdLURD\<close>: the line \<open>move = ur\<close> is
  decoded to \<open>ur\<close>, and the line \<open>move =\<close> with an empty value makes the result the
  empty sequence of moves instead of "no solution".
\<close>

theorem second_tier_collects_substrings:
  "extract_solution ''move = ur'' = Inr (Some ''ur'')
   \<and> extract_solution ''move ='' = Inr (Some [])
   \<and> extract_solution (''move = r'' @ [CHR 0x0A] @ ''move = D'') = Inr (Some ''rD'')"
  by (simp add: extract_solution_def match_here_def startswith_def scan_line_def
      last_item_def strip_def lstrip_def rstrip_def is_space_def)

text \<open>
  C8: the first tier takes precedence. A text whose first solution annotation is
  \<open>Solution:\<close>, white space, \<open>LURD moves:\<close>, white space and then the run \<open>g\<close> of move
  characters (the whole run: the text does not go on with another move character) is
  decoded to \<open>g\<close>, whatever lines stand before and after it. "First" means that the
  pattern matches at no position of the text \<open>pre\<close> before it.
\<close>

theorem annotation_takes_precedence:
  assumes "\<forall>c\<in>set ws1. is_space c" and "\<forall>c\<in>set ws2. is_space c"
    and "g \<noteq> []" and "\<forall>c\<in>set g. is_move_char c"
    and "rest = [] \<or> \<not> is_move_char (hd rest)"
    and "\<forall>i<length pre.
           match_here (drop i (pre @ ''Solution:'' @ ws1 @ ''LURD moves:'' @ ws2 @ g @ rest)) = None"
  shows "extract_solution (pre @ ''Solution:'' @ ws1 @ ''LURD moves:'' @ ws2 @ g @ rest)
         = Inr (Some g)"
proof -
  let ?s = "''Solution:'' @ ws1 @ ''LURD moves:'' @ ws2 @ g @ rest"
  have "re_search (pre @ ?s) = re_search ?s"
    using assms(6) by (rule re_search_skip)
  also have "\<dots> = Some g"
    using assms(1-5) by (intro re_search_here match_here_annotation)
  finally show ?thesis
    by (simp add: extract_solution_eq)
qed

theorem annotation_takes_precedence_witness:
  "extract_solution ''move = l\<newline>Solution: LURD moves: rrDD\<newline>move = u'' = Inr (Some ''rrDD'')"
proof -
  have "\<forall>i<length ''move = l\<newline>''. match_here (drop i (''move = l\<newline>'' @ ''Solution:'' @ '' ''
          @ ''LURD moves:'' @ '' '' @ ''rrDD'' @ ''\<newline>move = u'')) = None"
    by (rule no_match_without_S) simp
  then show ?thesis
    using annotation_takes_precedence [of "'' ''" "'' ''" "''rrDD''" "''\<newline>move = u''" "''move = l\<newline>''"]
    by (simp add: is_space_def is_move_char_def)
qed

text \<open>
  C9: the decoder is total. It raises no exception on any text (\<open>split\<close> never returns
  an empty list, so \<open>[-1]\<close> is defined), and it returns \<open>None\<close> when the annotation
  pattern matches nowhere and no line is accepted by the second tier; in particular when
  no line contains \<open>move =\<close>.
\<close>

theorem extract_solution_total:
  "(\<exists>r. extract_solution out = Inr r)
   \<and> (re_search out = None \<and> (\<forall>line\<in>set (split_on CHR 0x0A out). \<not> accepted line)
        \<longrightarrow> extract_solution out = Inr None)
   \<and> (re_search out = None \<and> (\<forall>line\<in>set (split_on CHR 0x0A out). \<not> str_in ''move ='' line)
        \<longrightarrow> extract_solution out = Inr None)"
proof (intro conjI impI)
  show "\<exists>r. extract_solution out = Inr r"
    by (simp add: extract_solution_eq)
next
  assume "re_search out = None \<and> (\<forall>line\<in>set (split_on CHR 0x0A out). \<not> accepted line)"
  then show "extract_solution out = Inr None"
    by (simp add: extract_solution_eq filter_False)
next
  assume "re_search out = None \<and> (\<forall>line\<in>set (split_on CHR 0x0A out). \<not> str_in ''move ='' line)"
  then show "extract_solution out = Inr None"
    by (simp add: extract_solution_eq filter_False accepted_def)
qed

theorem extract_solution_total_witness:
  "re_search ''no counterexample found\<newline>-- done'' = None
   \<and> list_all (\<lambda>line. \<not> str_in ''move ='' line) (split_on CHR 0x0A ''no counterexample found\<newline>-- done'')
   \<and> extract_solution ''no counterexample found\<newline>-- done'' = Inr None"
proof -
  have 1: "re_search ''no counterexample found\<newline>-- done'' = None"
    by (simp add: match_here_def startswith_def)
  have 2: "list_all (\<lambda>line. \<not> str_in ''move ='' line) (split_on CHR 0x0A ''no counterexample found\<newline>-- done'')"
    by (simp add: startswith_def)
  from 1 2 show ?thesis
    using extract_solution_total [of "''no counterexample found\<newline>-- done''"]
    by (simp add: list_all_iff)
qed

subsection \<open>The board parser\<close>

lemma scan_cell_player:
  "player (scan_cell y (x, ch) st) = (if is_player_mark ch then Some (x, y) else player st)"
  by (simp add: scan_cell_def Let_def is_player_mark_def)

lemma scan_cell_targets:
  "targets (scan_cell y (x, ch) st) = targets st @ (if is_target_mark ch then [(x, y)] else [])"
  by (auto simp: scan_cell_def Let_def is_target_mark_def)

lemma scan_cell_boxes:
  "boxes (scan_cell y (x, ch) st) = boxes st @ (if is_box_mark ch then [(x, y)] else [])"
  by (simp add: scan_cell_def Let_def is_box_mark_def)

lemma row_cells_Nil [simp]: "row_cells P y n [] = []"
  by (simp add: row_cells_def)

lemma row_cells_Cons:
  "row_cells P y n (ch # line) = (if P ch then [(n, y)] else []) @ row_cells P y (Suc n) line"
  by (simp add: row_cells_def)

lemma fold_scan_cell_targets:
  "targets (fold (scan_cell y) (enumerate n row) st) = targets st @ row_cells is_target_mark y n row"
  by (induction row arbitrary: n st) (simp_all add: row_cells_Cons scan_cell_targets)

lemma fold_scan_cell_boxes:
  "boxes (fold (scan_cell y) (enumerate n row) st) = boxes st @ row_cells is_box_mark y n row"
  by (induction row arbitrary: n st) (simp_all add: row_cells_Cons scan_cell_boxes)

lemma fold_scan_cell_player:
  "player (fold (scan_cell y) (enumerate n row) st) =
     (if row_cells is_player_mark y n row = [] then player st
      else Some (last (row_cells is_player_mark y n row)))"
  by (induction row arbitrary: n st) (simp_all add: row_cells_Cons scan_cell_player)

lemma row_cells_ljust:
  assumes "\<not> P CHR '' ''"
  shows "row_cells P y 0 (ljust line w) = row_cells P y 0 line"
proof -
  have "filter (\<lambda>(x, ch). P ch) (enumerate (length line) (replicate (w - length line) CHR '' '')) = []"
    using assms by (auto simp: filter_empty_conv in_set_enumerate_eq)
  then show ?thesis
    by (simp add: row_cells_def ljust_def enumerate_append_eq)
qed

lemma marked_cells_Nil [simp]: "marked_cells P n [] = []"
  by (simp add: marked_cells_def)

lemma marked_cells_Cons:
  "marked_cells P n (line # lines) = row_cells P n 0 line @ marked_cells P (Suc n) lines"
  by (simp add: marked_cells_def)

lemma scan_row_targets:
  "targets (scan_row w (y, line) st) = targets st @ row_cells is_target_mark y 0 line"
  by (simp add: scan_row_def Let_def fold_scan_cell_targets row_cells_ljust is_target_mark_def)

lemma scan_row_boxes:
  "boxes (scan_row w (y, line) st) = boxes st @ row_cells is_box_mark y 0 line"
  by (simp add: scan_row_def Let_def fold_scan_cell_boxes row_cells_ljust is_box_mark_def)

lemma scan_row_player:
  "player (scan_row w (y, line) st) =
     (if row_cells is_player_mark y 0 line = [] then player st
      else Some (last (row_cells is_player_mark y 0 line)))"
  by (simp add: scan_row_def Let_def fold_scan_cell_player row_cells_ljust is_player_mark_def)

lemma fold_scan_row_targets:
  "targets (fold (scan_row w) (enumerate n lines) st)
     = targets st @ marked_cells is_target_mark n lines"
  by (induction lines arbitrary: n st) (simp_all add: marked_cells_Cons scan_row_targets)

lemma fold_scan_row_boxes:
  "boxes (fold (scan_row w) (enumerate n lines) st) = boxes st @ marked_cells is_box_mark n lines"
  by (induction lines arbitrary: n st) (simp_all add: marked_cells_Cons scan_row_boxes)

lemma fold_scan_row_player:
  "player (fold (scan_row w) (enumerate n lines) st) =
     (if marked_cells is_player_mark n lines = [] then player st
      else Some (last (marked_cells is_player_mark n lines)))"
  by (induction lines arbitrary: n st) (simp_all add: marked_cells_Cons scan_row_player)

lemma parse_xsb_board_Inr:
  assumes "parse_xsb_board text = Inr b"
  shows "targets b = marked_cells is_target_mark 0 (nonblank_lines text)"
    and "boxes b = marked_cells is_box_mark 0 (nonblank_lines text)"
    and "player b = (if marked_cells is_player_mark 0 (nonblank_lines text) = [] then None
                     else Some (last (marked_cells is_player_mark 0 (nonblank_lines text))))"
  using assms
  by (auto simp: parse_xsb_board_def Let_def fold_scan_row_targets fold_scan_row_boxes
      fold_scan_row_player split: if_splits)

lemma parse_xsb_board_succeeds:
  "nonblank_lines text \<noteq> [] \<Longrightarrow> \<exists>b. parse_xsb_board text = Inr b"
  by (simp add: parse_xsb_board_def Let_def)

text \<open>The characters of the lines are characters of the text.\<close>

lemma file_lines_chars_all: "\<forall>line\<in>set (file_lines cs). set line \<subseteq> set cs"
proof (induction cs)
  case Nil
  then show ?case by simp
next
  case (Cons c cs)
  show ?case
  proof (cases "file_lines cs")
    case Nil
    then show ?thesis by simp
  next
    case (Cons l ls)
    with Cons.IH have "set l \<subseteq> set cs" and "\<forall>line\<in>set ls. set line \<subseteq> set cs"
      by simp_all
    with Cons show ?thesis by auto
  qed
qed

lemma file_lines_chars: "line \<in> set (file_lines cs) \<Longrightarrow> set line \<subseteq> set cs"
  using file_lines_chars_all by blast

lemma nonblank_lines_chars:
  assumes "line \<in> set (nonblank_lines text)"
  shows "set line \<subseteq> set text"
proof -
  from assms obtain l where l: "l \<in> set (file_lines text)" and "line = rstrip_nl l"
    by (auto simp: nonblank_lines_def)
  then have "set line \<subseteq> set l"
    by (auto simp: rstrip_nl_def dest: set_dropWhileD)
  with file_lines_chars [OF l] show ?thesis by blast
qed

lemma row_cells_empty: "\<forall>ch\<in>set line. \<not> P ch \<Longrightarrow> row_cells P y n line = []"
  by (auto simp: row_cells_def filter_empty_conv in_set_enumerate_eq)

lemma marked_cells_empty:
  "\<forall>line\<in>set lines. \<forall>ch\<in>set line. \<not> P ch \<Longrightarrow> marked_cells P n lines = []"
  by (induction lines arbitrary: n) (simp_all add: marked_cells_Cons row_cells_empty)

lemma no_player_mark:
  assumes "CHR ''@'' \<notin> set text" and "CHR ''+'' \<notin> set text"
  shows "marked_cells is_player_mark 0 (nonblank_lines text) = []"
proof (rule marked_cells_empty, intro ballI)
  fix line ch
  assume "line \<in> set (nonblank_lines text)" and "ch \<in> set line"
  then have "ch \<in> set text"
    using nonblank_lines_chars by blast
  with assms show "\<not> is_player_mark ch"
    by (auto simp: is_player_mark_def)
qed

text \<open>The targets of a parsed board are in row-major order already.\<close>

lemma sorted_map_Pair: "sorted xs \<Longrightarrow> sorted (map (\<lambda>x. (y, x)) xs)"
  for xs :: "nat list" and y :: nat
  by (induction xs) (auto simp: less_eq_prod_def)

lemma sorted_row_cells:
  "sorted (map (\<lambda>pos. (snd pos, fst pos)) (row_cells P y n line))"
proof -
  have "map (\<lambda>pos. (snd pos, fst pos)) (row_cells P y n line)
        = map (\<lambda>x. (y, x)) (map fst (filter (\<lambda>(x, ch). P ch) (enumerate n line)))"
    by (simp add: row_cells_def comp_def case_prod_unfold)
  moreover have "sorted (map fst (filter (\<lambda>(x, ch). P ch) (enumerate n line)))"
    by (rule sorted_filter) simp
  then have "sorted (map (\<lambda>x. (y, x)) (map fst (filter (\<lambda>(x, ch). P ch) (enumerate n line))))"
    by (rule sorted_map_Pair)
  ultimately show ?thesis by simp
qed

lemma snd_row_cells: "pos \<in> set (row_cells P y n line) \<Longrightarrow> snd pos = y"
  by (auto simp: row_cells_def)

lemma snd_marked_cells: "pos \<in> set (marked_cells P n lines) \<Longrightarrow> n \<le> snd pos"
proof (induction lines arbitrary: n)
  case Nil
  then show ?case by simp
next
  case (Cons line lines)
  then show ?case
    by (fastforce simp: marked_cells_Cons dest: snd_row_cells)
qed

lemma sorted_marked_cells:
  "sorted (map (\<lambda>pos. (snd pos, fst pos)) (marked_cells P n lines))"
proof (induction lines arbitrary: n)
  case Nil
  then show ?case by simp
next
  case (Cons line lines)
  have "(snd p, fst p) \<le> (snd q, fst q)"
    if "p \<in> set (row_cells P n 0 line)" and "q \<in> set (marked_cells P (Suc n) lines)" for p q
    using snd_row_cells [OF that(1)] snd_marked_cells [OF that(2)]
    by (simp add: less_eq_prod_def)
  with Cons.IH [of "Suc n"] sorted_row_cells [of P n 0 line] show ?case
    by (simp add: marked_cells_Cons sorted_append)
qed

lemma sort_targets_parsed:
  "parse_xsb_board text = Inr b \<Longrightarrow> sort_targets (targets b) = targets b"
  unfolding sort_targets_def
  by (rule sort_key_id_if_sorted) (simp add: parse_xsb_board_Inr(1) sorted_marked_cells)

text \<open>
  C10: a board text without a player mark, and one with several. For every text with a line
  that is not blank the parser returns a board. When the text holds neither \<open>@\<close> nor
  \<open>+\<close>, the player of that board is \<open>None\<close> and the synthesizer then raises
  \<open>TypeError\<close> where it reads the player's coordinates. When it holds player marks, the
  player is the last of their cells in row-major order.
\<close>

theorem missing_or_repeated_player:
  assumes "nonblank_lines text \<noteq> []"
  shows "\<exists>b. parse_xsb_board text = Inr b
           \<and> (CHR ''@'' \<notin> set text \<and> CHR ''+'' \<notin> set text
                \<longrightarrow> player b = None \<and> snd (generate_smv_model iter b) = Inl TypeError)
           \<and> (marked_cells is_player_mark 0 (nonblank_lines text) \<noteq> []
                \<longrightarrow> player b = Some (last (marked_cells is_player_mark 0 (nonblank_lines text))))"
proof -
  from assms obtain b where b: "parse_xsb_board text = Inr b"
    using parse_xsb_board_succeeds by blast
  have "player b = None \<and> snd (generate_smv_model iter b) = Inl TypeError"
    if "CHR ''@'' \<notin> set text \<and> CHR ''+'' \<notin> set text"
    using that by (simp add: parse_xsb_board_Inr(3) [OF b] no_player_mark generate_smv_model_def Let_def)
  moreover have "player b = Some (last (marked_cells is_player_mark 0 (nonblank_lines text)))"
    if "marked_cells is_player_mark 0 (nonblank_lines text) \<noteq> []"
    using that by (simp add: parse_xsb_board_Inr(3) [OF b])
  ultimately show ?thesis
    using b by blast
qed

lemma nonblank_lines_example1: "nonblank_lines ''#$.#'' = [''#$.#'']"
  by (simp add: nonblank_lines_def strip_def lstrip_def rstrip_def rstrip_nl_def is_space_def)

lemma nonblank_lines_example2: "nonblank_lines ''@ +\<newline>@.\<newline>'' = [''@ +'', ''@.'']"
  by (simp add: nonblank_lines_def strip_def lstrip_def rstrip_def rstrip_nl_def is_space_def)

lemma marked_cells_example2: "marked_cells is_player_mark 0 [''@ +'', ''@.''] = [(0, 0), (2, 0), (0, 1)]"
  by (simp add: marked_cells_def row_cells_def is_player_mark_def)

theorem missing_or_repeated_player_witness:
  "(\<exists>b. parse_xsb_board ''#$.#'' = Inr b \<and> player b = None
        \<and> snd (generate_smv_model sorted_list_of_set b) = Inl TypeError)
   \<and> (\<exists>b. parse_xsb_board ''@ +\<newline>@.\<newline>'' = Inr b \<and> player b = Some (0, 1))"
proof
  show "\<exists>b. parse_xsb_board ''#$.#'' = Inr b \<and> player b = None
          \<and> snd (generate_smv_model sorted_list_of_set b) = Inl TypeError"
    using missing_or_repeated_player [of "''#$.#''" sorted_list_of_set]
    by (auto simp: nonblank_lines_example1)
  show "\<exists>b. parse_xsb_board ''@ +\<newline>@.\<newline>'' = Inr b \<and> player b = Some (0, 1)"
    using missing_or_repeated_player [of "''@ +\<newline>@.\<newline>''" sorted_list_of_set]
    by (auto simp: nonblank_lines_example2 marked_cells_example2)
qed

text \<open>
  The in-place sort is a change of the caller's dictionary in general: a board built by
  hand with its targets out of order comes back reordered.
\<close>

lemma sort_targets_example: "sort_targets [(1, 1), (3, 0)] = [(3, 0), (1, 1)]"
  by code_simp

lemma targets_after_synthesis:
  "targets (fst (generate_smv_model iter b)) = sort_targets (targets b)"
  by (simp add: generate_smv_model_def Let_def)

lemma synthesis_sorts_in_place:
  "targets b = [(1, 1), (3, 0)] \<Longrightarrow> targets (fst (generate_smv_model iter b)) = [(3, 0), (1, 1)]"
  by (simp only: targets_after_synthesis sort_targets_example)

text \<open>
  C3: synthesis leaves a parsed board as it was. The synthesizer sorts the list of targets
  in place, but the parser appends the targets row by row and from left to right, so
  the list of a parsed board is sorted by row and column already and the stable sort
  returns it unchanged; no other field is assigned. This holds as well when the
  synthesizer raises for lack of a player.
\<close>

theorem synthesis_keeps_parsed_board:
  "parse_xsb_board text = Inr b \<Longrightarrow> fst (generate_smv_model iter b) = b"
  by (simp add: generate_smv_model_def Let_def sort_targets_parsed)

lemma parse_example3:
  "parse_xsb_board ''+.$\<newline>*.'' =
     Inr \<lparr>board = [''+.$'', ''*. ''], width = 3, height = 2, walls = {},
          targets = [(0, 0), (1, 0), (0, 1), (1, 1)], boxes = [(2, 0), (0, 1)],
          player = Some (0, 0)\<rparr>"
  by (simp add: parse_xsb_board_def nonblank_lines_def strip_def lstrip_def rstrip_def
      rstrip_nl_def is_space_def scan_row_def scan_cell_def ljust_def Let_def)

theorem synthesis_keeps_parsed_board_witness:
  "fst (generate_smv_model sorted_list_of_set
      \<lparr>board = [''+.$'', ''*. ''], width = 3, height = 2, walls = {},
       targets = [(0, 0), (1, 0), (0, 1), (1, 1)], boxes = [(2, 0), (0, 1)],
       player = Some (0, 0)\<rparr>)
   = \<lparr>board = [''+.$'', ''*. ''], width = 3, height = 2, walls = {},
      targets = [(0, 0), (1, 0), (0, 1), (1, 1)], boxes = [(2, 0), (0, 1)],
      player = Some (0, 0)\<rparr>"
  using synthesis_keeps_parsed_board [OF parse_example3, of sorted_list_of_set] .

subsection \<open>The goal of the model\<close>

lemma str_nat_digits [simp]:
  "str_nat 0 = ''0''" "str_nat 1 = ''1''" "str_nat (Suc 0) = ''1''" "str_nat 2 = ''2''"
  "str_nat (Suc (Suc 0)) = ''2''"
  "str_nat 3 = ''3''" "str_nat 4 = ''4''" "str_nat 5 = ''5''"
  by (simp_all add: str_nat.simps digit_char_def)



lemma smv_lines_end:
  "\<exists>pre. smv_lines iter b ts p = pre @ win_lines ts (length (boxes b)) @ ltlspec_lines"
proof -
  let ?n = "length (boxes b)"
  have "smv_lines iter b ts p =
      (declaration_lines (width b) (height b) ?n @ init_player_lines p
       @ concat (map init_box_lines (enumerate 1 (boxes b))) @ [[]]
       @ next_player_x_lines iter (walls b) ?n @ next_player_y_lines iter (walls b) ?n
       @ concat (map (next_box_lines iter (walls b) ?n) [1..<?n + 1]))
      @ win_lines ts ?n @ ltlspec_lines"
    by (simp add: smv_lines_def Let_def)
  then show ?thesis by blast
qed

lemma generate_smv_model_end:
  assumes "player b = Some p"
  shows "\<exists>pre. snd (generate_smv_model iter b) =
           Inr (str_join [CHR 0x0A]
             (pre @ win_lines (sort_targets (targets b)) (length (boxes b)) @ ltlspec_lines))"
proof -
  obtain pre where "smv_lines iter b (sort_targets (targets b)) p
      = pre @ win_lines (sort_targets (targets b)) (length (boxes b)) @ ltlspec_lines"
    using smv_lines_end by blast
  with assms show ?thesis
    by (auto simp: generate_smv_model_def Let_def)
qed

lemma length_sort_targets [simp]: "length (sort_targets ts) = length ts"
  by (simp add: sort_targets_def)


lemma parse_example5:
  "parse_xsb_board ''#.$@#\<newline>#$..#'' =
     Inr \<lparr>board = [''#.$@#'', ''#$..#''], width = 5, height = 2,
          walls = {(4, 1), (0, 1), (4, 0), (0, 0)},
          targets = [(1, 0), (2, 1), (3, 1)], boxes = [(2, 0), (1, 1)],
          player = Some (3, 0)\<rparr>"
  by code_simp



text \<open>
  A board without boxes has an empty list of conjuncts, and joining it gives the empty
  string.
\<close>

lemma goal_without_boxes:
  assumes "player b = Some p" and "boxes b = []"
  shows "\<exists>pre. snd (generate_smv_model iter b) =
           Inr (str_join [CHR 0x0A]
             (pre @ [''DEFINE'', ''    win := ;'', [],
                     ''-- LTL specification: eventually reach a winning state'',
                     ''LTLSPEC'', ''    F win'', []]))"
  using generate_smv_model_end [OF assms(1), of iter] assms(2)
  by (simp add: win_lines_def ltlspec_lines_def win_conditions_def)

lemma parse_example2:
  "parse_xsb_board ''#@ .#'' =
     Inr \<lparr>board = [''#@ .#''], width = 5, height = 1, walls = {(4, 0), (0, 0)},
          targets = [(3, 0)], boxes = [], player = Some (1, 0)\<rparr>"
  by code_simp

text \<open>
  C2, where the code departs from the claim. For a board without boxes the synthesizer
  returns a model (given a player), but the list of conjuncts is empty and joining it
  gives the empty string: the model defines \<open>win := ;\<close>, a definition without a
  right-hand side, and not a predicate that is trivially true. The builders
  \<open>gen_not_wall\<close>, \<open>gen_not_box\<close> and \<open>gen_box_at\<close> write \<open>TRUE\<close> or \<open>FALSE\<close>
  in their empty cases; the goal has no such case.
\<close>

theorem goal_of_board_without_boxes_is_empty:
  "\<exists>b pre. parse_xsb_board ''#@ .#'' = Inr b \<and> boxes b = []
      \<and> snd (generate_smv_model sorted_list_of_set b) =
          Inr (str_join [CHR 0x0A]
            (pre @ [''DEFINE'', ''    win := ;'', [],
                    ''-- LTL specification: eventually reach a winning state'',
                    ''LTLSPEC'', ''    F win'', []]))"
proof -
  let ?b = "\<lparr>board = [''#@ .#''], width = 5, height = 1, walls = {(4, 0), (0, 0)},
          targets = [(3, 0)], boxes = [], player = Some (1, 0)\<rparr>"
  have "player ?b = Some (1, 0)" and b: "boxes ?b = []"
    by simp_all
  from goal_without_boxes [OF this, of sorted_list_of_set] obtain pre where
    "snd (generate_smv_model sorted_list_of_set ?b) =
       Inr (str_join [CHR 0x0A]
         (pre @ [''DEFINE'', ''    win := ;'', [],
                 ''-- LTL specification: eventually reach a winning state'',
                 ''LTLSPEC'', ''    F win'', []]))"
    by blast
  with parse_example2 b show ?thesis
    by (intro exI [of _ ?b] exI [of _ pre] conjI)
qed

subsection \<open>The printed trees are the text of the synthesizer\<close>

lemma show_in_bounds:
  "show_bexp (in_bounds ex ey) = gen_in_bounds (show_aexp ex) (show_aexp ey)"
  by (simp add: in_bounds_def gen_in_bounds_def)

lemma show_not_wall:
  assumes "set (iter ws) = ws"
  shows "show_bexp (not_wall (iter ws) ex ey) = gen_not_wall iter (show_aexp ex) (show_aexp ey) ws"
proof -
  have "iter ws = [] \<longleftrightarrow> ws = {}"
    using assms by (metis set_empty)
  then show ?thesis
    by (simp add: not_wall_def gen_not_wall_def comp_def case_prod_unfold)
qed

lemma show_box_here:
  "show_bexp (box_here ex ey i) = box_cond (show_aexp ex) (show_aexp ey) i"
  by (simp add: box_here_def box_cond_def)

lemma show_not_box:
  "show_bexp (not_box n ex ey) = gen_not_box (show_aexp ex) (show_aexp ey) n"
  by (simp add: not_box_def gen_not_box_def comp_def show_box_here)

lemma show_box_at:
  "show_bexp (box_at n ex ey) = gen_box_at (show_aexp ex) (show_aexp ey) n"
  by (simp add: box_at_def gen_box_at_def comp_def show_box_here)

lemma show_free_cell:
  assumes "set (iter ws) = ws"
  shows "show_bexp (free_cell (iter ws) n ex ey)
         = gen_free_cell iter (show_aexp ex) (show_aexp ey) ws n"
  using assms
  by (simp add: free_cell_def gen_free_cell_def show_in_bounds show_not_wall show_not_box)

lemma show_move_cond:
  assumes "set (iter ws) = ws"
  shows "show_bexp (move_cond (iter ws) n Step_l) = free_left iter ws n"
    and "show_bexp (move_cond (iter ws) n Step_r) = free_right iter ws n"
    and "show_bexp (move_cond (iter ws) n Step_u) = free_up iter ws n"
    and "show_bexp (move_cond (iter ws) n Step_d) = free_down iter ws n"
    and "show_bexp (move_cond (iter ws) n Push_L) = push_left iter ws n"
    and "show_bexp (move_cond (iter ws) n Push_R) = push_right iter ws n"
    and "show_bexp (move_cond (iter ws) n Push_U) = push_up iter ws n"
    and "show_bexp (move_cond (iter ws) n Push_D) = push_down iter ws n"
  using assms
  by (simp_all add: move_cond_def is_push_def show_free_cell show_box_at
      free_left_def free_right_def free_up_def free_down_def
      push_left_def push_right_def push_up_def push_down_def)

lemma next_player_x_lines_show:
  assumes "set (iter ws) = ws"
  shows "next_player_x_lines iter ws n = show_next Player_x (player_x_branches (iter ws) n) @ [[]]"
  using assms
  by (simp add: next_player_x_lines_def show_next_def player_x_branches_def all_moves_def
      show_branch_def move_guard_def show_move_cond)

lemma next_player_y_lines_show:
  assumes "set (iter ws) = ws"
  shows "next_player_y_lines iter ws n = show_next Player_y (player_y_branches (iter ws) n) @ [[]]"
  using assms
  by (simp add: next_player_y_lines_def show_next_def player_y_branches_def all_moves_def
      show_branch_def move_guard_def show_move_cond)

lemma next_box_lines_show:
  assumes "set (iter ws) = ws"
  shows "next_box_lines iter ws n i =
           show_next (Box_x i) (box_x_branches (iter ws) n i)
           @ show_next (Box_y i) (box_y_branches (iter ws) n i) @ [[]]"
  using assms
  by (simp add: next_box_lines_def show_next_def box_x_branches_def box_y_branches_def
      show_branch_def box_guard_def show_free_cell gen_free_cell_def)

subsection \<open>What the guards say\<close>

lemma bval_in_bounds:
  "bval w h (in_bounds ex ey) s \<longleftrightarrow>
     0 \<le> aval w h ex s \<and> aval w h ex s < int w \<and> 0 \<le> aval w h ey s \<and> aval w h ey s < int h"
  by (simp add: in_bounds_def)

lemma bval_not_wall:
  "bval w h (not_wall ws ex ey) s \<longleftrightarrow>
     \<not> (\<exists>(wx, wy)\<in>set ws. aval w h ex s = int wx \<and> aval w h ey s = int wy)"
  by (auto simp: not_wall_def list_all_iff)

lemma bval_box_here:
  "bval w h (box_here ex ey i) s \<longleftrightarrow> box_x s i = aval w h ex s \<and> box_y s i = aval w h ey s"
  by (auto simp: box_here_def)

lemma set_box_indices: "set [Suc 0..<Suc n] = {Suc 0..n}"
  by auto

lemma bval_box_at:
  "bval w h (box_at n ex ey) s \<longleftrightarrow>
     (\<exists>i\<in>{1..n}. box_x s i = aval w h ex s \<and> box_y s i = aval w h ey s)"
  unfolding box_at_def
  by (simp add: list_ex_iff bval_box_here set_box_indices del: upt_Suc set_upt)

lemma bval_not_box:
  "bval w h (not_box n ex ey) s \<longleftrightarrow>
     \<not> (\<exists>i\<in>{1..n}. box_x s i = aval w h ex s \<and> box_y s i = aval w h ey s)"
  unfolding not_box_def
  by (simp add: list_ex_iff bval_box_here set_box_indices del: upt_Suc set_upt)

lemma bval_free_cell:
  assumes "lists_walls iter b"
  shows "bval (width b) (height b) (free_cell (iter (walls b)) (length (boxes b)) ex ey) s
         \<longleftrightarrow> is_free b s (aval (width b) (height b) ex s, aval (width b) (height b) ey s)"
  using assms
  by (simp add: free_cell_def bval_in_bounds bval_not_wall bval_not_box is_free_def
      is_wall_def box_on_def lists_walls_def)

lemma aval_cell_x: "aval w h (cell_x m k) s = fst (ahead m (int k) s)"
  by (cases m) simp_all

lemma aval_cell_y: "aval w h (cell_y m k) s = snd (ahead m (int k) s)"
  by (cases m) simp_all

lemma bval_move_cond:
  assumes "lists_walls iter b"
  shows "bval (width b) (height b) (move_cond (iter (walls b)) (length (boxes b)) m) s
         \<longleftrightarrow> can_move b s m"
  by (simp add: move_cond_def can_move_def bval_free_cell [OF assms] bval_box_at box_on_def
      aval_cell_x aval_cell_y case_prod_unfold)

lemma bval_move_guard:
  assumes "lists_walls iter b"
  shows "bval (width b) (height b) (move_guard (iter (walls b)) (length (boxes b)) m) s
         \<longleftrightarrow> move s = m \<and> can_move b s m"
  by (simp add: move_guard_def bval_move_cond [OF assms])

lemma bval_box_guard:
  assumes "lists_walls iter b" and "is_push m"
  shows "bval (width b) (height b) (box_guard (iter (walls b)) (length (boxes b)) i m) s
         \<longleftrightarrow> pushes_box b s i m"
  using assms(2)
  by (auto simp: box_guard_def pushes_box_def bval_free_cell [OF assms(1)] aval_cell_x
      aval_cell_y prod_eq_iff)

lemma case_val_moves:
  "case_val w h (map (\<lambda>m. (Conj [Move_is m, c m], e m)) ms @ [(TRUE, d)]) s =
     Some (if move s \<in> set ms \<and> bval w h (c (move s)) s then aval w h (e (move s)) s
           else aval w h d s)"
  by (induction ms) auto

lemma set_all_moves: "set all_moves = UNIV"
proof -
  have "m \<in> set all_moves" for m
    by (cases m) (simp_all add: all_moves_def)
  then show ?thesis by blast
qed

lemma next_player_x_eq:
  assumes "lists_walls iter b"
  shows "next_player_x iter b s =
           Some (if can_move b s (move s) then fst (ahead (move s) 1 s) else player_x s)"
  unfolding next_player_x_def player_x_branches_def move_guard_def
  by (simp add: case_val_moves set_all_moves bval_move_cond [OF assms] aval_cell_x)

lemma next_player_y_eq:
  assumes "lists_walls iter b"
  shows "next_player_y iter b s =
           Some (if can_move b s (move s) then snd (ahead (move s) 1 s) else player_y s)"
  unfolding next_player_y_def player_y_branches_def move_guard_def
  by (simp add: case_val_moves set_all_moves bval_move_cond [OF assms] aval_cell_y)

lemma next_box_x_eq:
  assumes "lists_walls iter b"
  shows "next_box_x iter b i s =
           Some (if pushes_box b s i Push_L then box_x s i - 1
                 else if pushes_box b s i Push_R then box_x s i + 1
                 else box_x s i)"
  by (simp add: next_box_x_def box_x_branches_def bval_box_guard [OF assms] is_push_def)

lemma next_box_y_eq:
  assumes "lists_walls iter b"
  shows "next_box_y iter b i s =
           Some (if pushes_box b s i Push_U then box_y s i - 1
                 else if pushes_box b s i Push_D then box_y s i + 1
                 else box_y s i)"
  by (simp add: next_box_y_def box_y_branches_def bval_box_guard [OF assms] is_push_def)

lemma init_lines_show:
  "init_player_lines p @ concat (map init_box_lines (enumerate 1 (boxes b)))
   = map show_init (init_assignments b p)"
proof -
  have "concat (map init_box_lines xs)
        = map show_init (concat (map (\<lambda>(i, (bx, by)). [(Box_x i, bx), (Box_y i, by)]) xs))"
    for xs
    by (induction xs) (auto simp: init_box_lines_def show_init_def)
  then show ?thesis
    by (simp add: init_assignments_def init_player_lines_def show_init_def)
qed

text \<open>
  The whole text of a model, read as a transition system: declarations, the initial
  assignments, one case expression for each coordinate of the player and of each box, the
  goal and the property.
\<close>

lemma smv_lines_show:
  assumes "lists_walls iter b"
  shows "smv_lines iter b ts p =
     declaration_lines (width b) (height b) (length (boxes b))
     @ map show_init (init_assignments b p) @ [[]]
     @ show_next Player_x (player_x_branches (iter (walls b)) (length (boxes b))) @ [[]]
     @ show_next Player_y (player_y_branches (iter (walls b)) (length (boxes b))) @ [[]]
     @ concat (map (\<lambda>i. show_next (Box_x i) (box_x_branches (iter (walls b)) (length (boxes b)) i)
                        @ show_next (Box_y i) (box_y_branches (iter (walls b)) (length (boxes b)) i)
                        @ [[]])
                [1..<length (boxes b) + 1])
     @ win_lines ts (length (boxes b)) @ ltlspec_lines"
proof -
  have ws: "set (iter (walls b)) = walls b"
    using assms by (simp add: lists_walls_def)
  have "smv_lines iter b ts p =
     declaration_lines (width b) (height b) (length (boxes b))
     @ (init_player_lines p @ concat (map init_box_lines (enumerate 1 (boxes b)))) @ [[]]
     @ next_player_x_lines iter (walls b) (length (boxes b))
     @ next_player_y_lines iter (walls b) (length (boxes b))
     @ concat (map (next_box_lines iter (walls b) (length (boxes b))) [1..<length (boxes b) + 1])
     @ win_lines ts (length (boxes b)) @ ltlspec_lines"
    by (simp add: smv_lines_def Let_def)
  then show ?thesis
    unfolding init_lines_show next_player_x_lines_show [of iter "walls b", OF ws]
      next_player_y_lines_show [of iter "walls b", OF ws]
      next_box_lines_show [of iter "walls b", OF ws]
    by simp
qed

subsection \<open>The transition system\<close>

lemma parse_scenario:
  "parse_xsb_board ''#####\<newline>#@$.#\<newline>#####'' = Inr scenario_board"
proof -
  have "parse_xsb_board ''#####\<newline>#@$.#\<newline>#####'' =
     Inr \<lparr>board = [''#####'', ''#@$.#'', ''#####''], width = 5, height = 3,
          walls = {(4, 2), (3, 2), (2, 2), (1, 2), (0, 2), (4, 1), (0, 1),
                   (4, 0), (3, 0), (2, 0), (1, 0), (0, 0)},
          targets = [(3, 1)], boxes = [(2, 1)], player = Some (1, 1)\<rparr>"
    by code_simp
  moreover have "{(4, 2), (3, 2), (2, 2), (1, 2), (0, 2), (4, 1), (0, 1),
                   (4, 0), (3, 0), (2, 0), (1, 0), (0, 0)}
      = {(0, 0), (1, 0), (2, 0), (3, 0), (4, 0), (0, 1), (4, 1),
               (0, 2), (1, 2), (2, 2), (3, 2), (4, 2 :: nat) :: nat \<times> nat}"
    by blast
  ultimately show ?thesis
    by (simp only: scenario_board_def)
qed

lemma lists_walls_scenario: "lists_walls sorted_list_of_set scenario_board"
  unfolding lists_walls_def
  by (rule set_sorted_list_of_set) (simp add: scenario_board_def)

lemma initial_scenario: "initial scenario_board (1, 1) (scenario_state m)"
  by (simp add: initial_def init_assignments_def scenario_board_def scenario_state_def)

lemma initial_scenarioD:
  assumes "initial scenario_board (1, 1) s"
  shows "player_x s = 1" and "player_y s = 1" and "box_x s 1 = 2" and "box_y s 1 = 1"
  using assms by (simp_all add: initial_def init_assignments_def scenario_board_def)

lemma can_move_scenario:
  assumes "initial scenario_board (1, 1) s"
  shows "can_move scenario_board s m \<longleftrightarrow> m = Push_R"
  using initial_scenarioD [OF assms]
  by (cases m)
    (simp_all add: can_move_def is_push_def is_free_def is_wall_def box_on_def scenario_board_def)

lemma player_scenario: "player scenario_board = Some (1, 1)"
  by (simp add: scenario_board_def)

text \<open>
  C6: the next position of a box. The model that the synthesizer returns for a board with
  a player holds, for each box \<open>i\<close> from 1 to the number of boxes, the two case
  expressions \<open>box_x_branches\<close> and \<open>box_y_branches\<close> (first conjunct: the whole
  text of the model). Their values, in every state: the x-coordinate of box \<open>i\<close> goes
  down by one when \<open>L\<close> pushes box \<open>i\<close>, up by one when \<open>R\<close> does, and is unchanged
  otherwise; likewise the y-coordinate with \<open>U\<close> and \<open>D\<close>. A push \<open>m\<close> pushes box
  \<open>i\<close> when it is the selected move, box \<open>i\<close> stands exactly one cell from the player
  in the direction of \<open>m\<close>, and the cell one further is free. When no push pushes box
  \<open>i\<close>, neither coordinate changes.
\<close>

theorem box_moves_only_when_pushed:
  assumes "lists_walls iter b" and "player b = Some p"
  shows "snd (generate_smv_model iter b) =
           Inr (str_join [CHR 0x0A]
             (declaration_lines (width b) (height b) (length (boxes b))
              @ map show_init (init_assignments b p) @ [[]]
              @ show_next Player_x (player_x_branches (iter (walls b)) (length (boxes b))) @ [[]]
              @ show_next Player_y (player_y_branches (iter (walls b)) (length (boxes b))) @ [[]]
              @ concat (map (\<lambda>i. show_next (Box_x i)
                                     (box_x_branches (iter (walls b)) (length (boxes b)) i)
                                 @ show_next (Box_y i)
                                     (box_y_branches (iter (walls b)) (length (boxes b)) i)
                                 @ [[]])
                         [1..<length (boxes b) + 1])
              @ win_lines (sort_targets (targets b)) (length (boxes b)) @ ltlspec_lines))
         \<and> (\<forall>i s.
              case_val (width b) (height b) (box_x_branches (iter (walls b)) (length (boxes b)) i) s =
                Some (if pushes_box b s i Push_L then box_x s i - 1
                      else if pushes_box b s i Push_R then box_x s i + 1
                      else box_x s i)
              \<and> case_val (width b) (height b) (box_y_branches (iter (walls b)) (length (boxes b)) i) s =
                Some (if pushes_box b s i Push_U then box_y s i - 1
                      else if pushes_box b s i Push_D then box_y s i + 1
                      else box_y s i)
              \<and> ((\<forall>m. \<not> pushes_box b s i m)
                   \<longrightarrow> case_val (width b) (height b)
                         (box_x_branches (iter (walls b)) (length (boxes b)) i) s = Some (box_x s i)
                       \<and> case_val (width b) (height b)
                         (box_y_branches (iter (walls b)) (length (boxes b)) i) s = Some (box_y s i)))"
proof (intro conjI allI)
  have ws: "set (iter (walls b)) = walls b"
    using assms(1) by (simp add: lists_walls_def)
  have "smv_lines iter b (sort_targets (targets b)) p =
           declaration_lines (width b) (height b) (length (boxes b))
           @ (init_player_lines p @ concat (map init_box_lines (enumerate 1 (boxes b)))) @ [[]]
           @ next_player_x_lines iter (walls b) (length (boxes b))
           @ next_player_y_lines iter (walls b) (length (boxes b))
           @ concat (map (next_box_lines iter (walls b) (length (boxes b)))
                      [1..<length (boxes b) + 1])
           @ win_lines (sort_targets (targets b)) (length (boxes b)) @ ltlspec_lines"
    by (simp add: smv_lines_def Let_def)
  then have lines: "smv_lines iter b (sort_targets (targets b)) p =
              declaration_lines (width b) (height b) (length (boxes b))
              @ map show_init (init_assignments b p) @ [[]]
              @ show_next Player_x (player_x_branches (iter (walls b)) (length (boxes b))) @ [[]]
              @ show_next Player_y (player_y_branches (iter (walls b)) (length (boxes b))) @ [[]]
              @ concat (map (\<lambda>i. show_next (Box_x i)
                                     (box_x_branches (iter (walls b)) (length (boxes b)) i)
                                 @ show_next (Box_y i)
                                     (box_y_branches (iter (walls b)) (length (boxes b)) i)
                                 @ [[]])
                         [1..<length (boxes b) + 1])
              @ win_lines (sort_targets (targets b)) (length (boxes b)) @ ltlspec_lines"
    unfolding init_lines_show next_player_x_lines_show [of iter "walls b", OF ws]
      next_player_y_lines_show [of iter "walls b", OF ws]
      next_box_lines_show [of iter "walls b", OF ws]
    by simp
  show "snd (generate_smv_model iter b) =
           Inr (str_join [CHR 0x0A]
             (declaration_lines (width b) (height b) (length (boxes b))
              @ map show_init (init_assignments b p) @ [[]]
              @ show_next Player_x (player_x_branches (iter (walls b)) (length (boxes b))) @ [[]]
              @ show_next Player_y (player_y_branches (iter (walls b)) (length (boxes b))) @ [[]]
              @ concat (map (\<lambda>i. show_next (Box_x i)
                                     (box_x_branches (iter (walls b)) (length (boxes b)) i)
                                 @ show_next (Box_y i)
                                     (box_y_branches (iter (walls b)) (length (boxes b)) i)
                                 @ [[]])
                         [1..<length (boxes b) + 1])
              @ win_lines (sort_targets (targets b)) (length (boxes b)) @ ltlspec_lines))"
    by (simp only: generate_smv_model_def Let_def assms(2) snd_conv option.case lines)
next
  fix i s
  show "case_val (width b) (height b) (box_x_branches (iter (walls b)) (length (boxes b)) i) s =
          Some (if pushes_box b s i Push_L then box_x s i - 1
                else if pushes_box b s i Push_R then box_x s i + 1
                else box_x s i)"
    using next_box_x_eq [OF assms(1), of i s] by (simp add: next_box_x_def)
  show "case_val (width b) (height b) (box_y_branches (iter (walls b)) (length (boxes b)) i) s =
          Some (if pushes_box b s i Push_U then box_y s i - 1
                else if pushes_box b s i Push_D then box_y s i + 1
                else box_y s i)"
    using next_box_y_eq [OF assms(1), of i s] by (simp add: next_box_y_def)
  show "(\<forall>m. \<not> pushes_box b s i m)
          \<longrightarrow> case_val (width b) (height b)
                (box_x_branches (iter (walls b)) (length (boxes b)) i) s = Some (box_x s i)
              \<and> case_val (width b) (height b)
                (box_y_branches (iter (walls b)) (length (boxes b)) i) s = Some (box_y s i)"
    using next_box_x_eq [OF assms(1), of i s] next_box_y_eq [OF assms(1), of i s]
    by (simp add: next_box_x_def next_box_y_def)
qed

theorem box_moves_only_when_pushed_witness:
  "(\<exists>text. snd (generate_smv_model sorted_list_of_set scenario_board) = Inr text)
   \<and> next_box_x sorted_list_of_set scenario_board 1 (scenario_state Push_R) = Some 3
   \<and> next_box_y sorted_list_of_set scenario_board 1 (scenario_state Push_R) = Some 1
   \<and> next_box_x sorted_list_of_set scenario_board 1 (scenario_state Push_L) = Some 2
   \<and> next_box_x sorted_list_of_set scenario_board 1 (scenario_state Step_r) = Some 2"
proof -
  note rule_at_scenario = box_moves_only_when_pushed [OF lists_walls_scenario player_scenario]
  have "pushes_box scenario_board (scenario_state m) 1 m' \<longleftrightarrow> m = Push_R \<and> m' = Push_R" for m m'
    by (cases m')
      (auto simp: pushes_box_def is_push_def is_free_def is_wall_def box_on_def
        scenario_board_def scenario_state_def)
  moreover have "\<exists>text. snd (generate_smv_model sorted_list_of_set scenario_board) = Inr text"
    using rule_at_scenario [THEN conjunct1] by blast
  ultimately show ?thesis
    using rule_at_scenario [THEN conjunct2, THEN spec, THEN spec, of 1 "scenario_state Push_R"]
      rule_at_scenario [THEN conjunct2, THEN spec, THEN spec, of 1 "scenario_state Push_L"]
      rule_at_scenario [THEN conjunct2, THEN spec, THEN spec, of 1 "scenario_state Step_r"]
    by (simp add: scenario_state_def next_box_x_def next_box_y_def)
qed

text \<open>
  C7: the next position of the player. The model that the synthesizer returns for a board
  with a player holds the case expressions \<open>player_x_branches\<close> and
  \<open>player_y_branches\<close>, each ending in its fall-through branch (first conjunct: the whole
  text of the model). Their values, in every state: when the selected move can be made, the
  player goes to the next cell in its direction, and stays otherwise. So a vertical move or
  push (\<open>u\<close>, \<open>d\<close>, \<open>U\<close>, \<open>D\<close>) never changes the x-coordinate, a horizontal one
  (\<open>l\<close>, \<open>r\<close>, \<open>L\<close>, \<open>R\<close>) never changes the y-coordinate, and a coordinate
  changes only when the selected move is of its own axis and can be made.
\<close>

theorem player_moves_along_one_axis:
  assumes "lists_walls iter b" and "player b = Some p"
  shows "snd (generate_smv_model iter b) =
           Inr (str_join [CHR 0x0A]
             (declaration_lines (width b) (height b) (length (boxes b))
              @ map show_init (init_assignments b p) @ [[]]
              @ show_next Player_x (player_x_branches (iter (walls b)) (length (boxes b))) @ [[]]
              @ show_next Player_y (player_y_branches (iter (walls b)) (length (boxes b))) @ [[]]
              @ concat (map (\<lambda>i. show_next (Box_x i)
                                     (box_x_branches (iter (walls b)) (length (boxes b)) i)
                                 @ show_next (Box_y i)
                                     (box_y_branches (iter (walls b)) (length (boxes b)) i)
                                 @ [[]])
                         [1..<length (boxes b) + 1])
              @ win_lines (sort_targets (targets b)) (length (boxes b)) @ ltlspec_lines))
         \<and> (\<forall>s.
              case_val (width b) (height b) (player_x_branches (iter (walls b)) (length (boxes b))) s =
                Some (if can_move b s (move s) then fst (ahead (move s) 1 s) else player_x s)
              \<and> case_val (width b) (height b) (player_y_branches (iter (walls b)) (length (boxes b))) s =
                Some (if can_move b s (move s) then snd (ahead (move s) 1 s) else player_y s)
              \<and> (move s \<in> {Step_u, Step_d, Push_U, Push_D}
                   \<longrightarrow> case_val (width b) (height b)
                         (player_x_branches (iter (walls b)) (length (boxes b))) s
                       = Some (player_x s))
              \<and> (move s \<in> {Step_l, Step_r, Push_L, Push_R}
                   \<longrightarrow> case_val (width b) (height b)
                         (player_y_branches (iter (walls b)) (length (boxes b))) s
                       = Some (player_y s))
              \<and> (case_val (width b) (height b)
                    (player_x_branches (iter (walls b)) (length (boxes b))) s \<noteq> Some (player_x s)
                   \<longrightarrow> move s \<in> {Step_l, Step_r, Push_L, Push_R} \<and> can_move b s (move s))
              \<and> (case_val (width b) (height b)
                    (player_y_branches (iter (walls b)) (length (boxes b))) s \<noteq> Some (player_y s)
                   \<longrightarrow> move s \<in> {Step_u, Step_d, Push_U, Push_D} \<and> can_move b s (move s)))"
proof (rule conjI)
  have ws: "set (iter (walls b)) = walls b"
    using assms(1) by (simp add: lists_walls_def)
  have "smv_lines iter b (sort_targets (targets b)) p =
           declaration_lines (width b) (height b) (length (boxes b))
           @ (init_player_lines p @ concat (map init_box_lines (enumerate 1 (boxes b)))) @ [[]]
           @ next_player_x_lines iter (walls b) (length (boxes b))
           @ next_player_y_lines iter (walls b) (length (boxes b))
           @ concat (map (next_box_lines iter (walls b) (length (boxes b)))
                      [1..<length (boxes b) + 1])
           @ win_lines (sort_targets (targets b)) (length (boxes b)) @ ltlspec_lines"
    by (simp add: smv_lines_def Let_def)
  then have lines: "smv_lines iter b (sort_targets (targets b)) p =
              declaration_lines (width b) (height b) (length (boxes b))
              @ map show_init (init_assignments b p) @ [[]]
              @ show_next Player_x (player_x_branches (iter (walls b)) (length (boxes b))) @ [[]]
              @ show_next Player_y (player_y_branches (iter (walls b)) (length (boxes b))) @ [[]]
              @ concat (map (\<lambda>i. show_next (Box_x i)
                                     (box_x_branches (iter (walls b)) (length (boxes b)) i)
                                 @ show_next (Box_y i)
                                     (box_y_branches (iter (walls b)) (length (boxes b)) i)
                                 @ [[]])
                         [1..<length (boxes b) + 1])
              @ win_lines (sort_targets (targets b)) (length (boxes b)) @ ltlspec_lines"
    unfolding init_lines_show next_player_x_lines_show [of iter "walls b", OF ws]
      next_player_y_lines_show [of iter "walls b", OF ws]
      next_box_lines_show [of iter "walls b", OF ws]
    by simp
  show "snd (generate_smv_model iter b) =
           Inr (str_join [CHR 0x0A]
             (declaration_lines (width b) (height b) (length (boxes b))
              @ map show_init (init_assignments b p) @ [[]]
              @ show_next Player_x (player_x_branches (iter (walls b)) (length (boxes b))) @ [[]]
              @ show_next Player_y (player_y_branches (iter (walls b)) (length (boxes b))) @ [[]]
              @ concat (map (\<lambda>i. show_next (Box_x i)
                                     (box_x_branches (iter (walls b)) (length (boxes b)) i)
                                 @ show_next (Box_y i)
                                     (box_y_branches (iter (walls b)) (length (boxes b)) i)
                                 @ [[]])
                         [1..<length (boxes b) + 1])
              @ win_lines (sort_targets (targets b)) (length (boxes b)) @ ltlspec_lines))"
    by (simp only: generate_smv_model_def Let_def assms(2) snd_conv option.case lines)
next
  have x: "case_val (width b) (height b) (player_x_branches (iter (walls b)) (length (boxes b))) s =
          Some (if can_move b s (move s) then fst (ahead (move s) 1 s) else player_x s)" for s
    using next_player_x_eq [OF assms(1), of s] by (simp add: next_player_x_def)
  have y: "case_val (width b) (height b) (player_y_branches (iter (walls b)) (length (boxes b))) s =
          Some (if can_move b s (move s) then snd (ahead (move s) 1 s) else player_y s)" for s
    using next_player_y_eq [OF assms(1), of s] by (simp add: next_player_y_def)
  have "fst (ahead m 1 s) = player_x s" if "m \<in> {Step_u, Step_d, Push_U, Push_D}" for m s
    using that by auto
  moreover have "snd (ahead m 1 s) = player_y s" if "m \<in> {Step_l, Step_r, Push_L, Push_R}" for m s
    using that by auto
  moreover have "m \<in> {Step_l, Step_r, Push_L, Push_R}" if "fst (ahead m 1 s) \<noteq> player_x s" for m s
    using that by (cases m) simp_all
  moreover have "m \<in> {Step_u, Step_d, Push_U, Push_D}" if "snd (ahead m 1 s) \<noteq> player_y s" for m s
    using that by (cases m) simp_all
  ultimately show "\<forall>s.
              case_val (width b) (height b) (player_x_branches (iter (walls b)) (length (boxes b))) s =
                Some (if can_move b s (move s) then fst (ahead (move s) 1 s) else player_x s)
              \<and> case_val (width b) (height b) (player_y_branches (iter (walls b)) (length (boxes b))) s =
                Some (if can_move b s (move s) then snd (ahead (move s) 1 s) else player_y s)
              \<and> (move s \<in> {Step_u, Step_d, Push_U, Push_D}
                   \<longrightarrow> case_val (width b) (height b)
                         (player_x_branches (iter (walls b)) (length (boxes b))) s
                       = Some (player_x s))
              \<and> (move s \<in> {Step_l, Step_r, Push_L, Push_R}
                   \<longrightarrow> case_val (width b) (height b)
                         (player_y_branches (iter (walls b)) (length (boxes b))) s
                       = Some (player_y s))
              \<and> (case_val (width b) (height b)
                    (player_x_branches (iter (walls b)) (length (boxes b))) s \<noteq> Some (player_x s)
                   \<longrightarrow> move s \<in> {Step_l, Step_r, Push_L, Push_R} \<and> can_move b s (move s))
              \<and> (case_val (width b) (height b)
                    (player_y_branches (iter (walls b)) (length (boxes b))) s \<noteq> Some (player_y s)
                   \<longrightarrow> move s \<in> {Step_u, Step_d, Push_U, Push_D} \<and> can_move b s (move s))"
    unfolding x y by (simp split: if_splits)
qed

theorem player_moves_along_one_axis_witness:
  "(\<exists>text. snd (generate_smv_model sorted_list_of_set scenario_board) = Inr text)
   \<and> next_player_x sorted_list_of_set scenario_board (scenario_state Push_R) = Some 2
   \<and> next_player_y sorted_list_of_set scenario_board (scenario_state Push_R) = Some 1
   \<and> next_player_x sorted_list_of_set scenario_board (scenario_state Step_u) = Some 1
   \<and> next_player_y sorted_list_of_set scenario_board (scenario_state Step_l) = Some 1"
proof -
  note rule_at_scenario = player_moves_along_one_axis [OF lists_walls_scenario player_scenario]
  have "\<exists>text. snd (generate_smv_model sorted_list_of_set scenario_board) = Inr text"
    using rule_at_scenario [THEN conjunct1] by blast
  then show ?thesis
    using rule_at_scenario [THEN conjunct2, THEN spec, of "scenario_state Push_R"]
      rule_at_scenario [THEN conjunct2, THEN spec, of "scenario_state Step_u"]
      rule_at_scenario [THEN conjunct2, THEN spec, of "scenario_state Step_l"]
      can_move_scenario [OF initial_scenario]
    by (simp add: scenario_state_def next_player_x_def next_player_y_def)
qed

text \<open>
  C1 as stated fails. It says that in the initial state of the round-trip scenario the
  guard of the branch of \<open>r\<close> holds. That guard is false: \<open>r\<close> is the simple move
  to the right, and the box stands in the cell to the right of the player. The guard that
  holds is that of the push \<open>R\<close>.
\<close>

theorem scenario_step_right_is_disabled:
  "parse_xsb_board ''#####\<newline>#@$.#\<newline>#####'' = Inr scenario_board
   \<and> initial scenario_board (1, 1) (scenario_state Step_r)
   \<and> \<not> bval (width scenario_board) (height scenario_board)
         (move_guard (sorted_list_of_set (walls scenario_board)) (length (boxes scenario_board)) Step_r)
         (scenario_state Step_r)
   \<and> bval (width scenario_board) (height scenario_board)
         (move_guard (sorted_list_of_set (walls scenario_board)) (length (boxes scenario_board)) Push_R)
         (scenario_state Push_R)"
proof (intro conjI)
  show "parse_xsb_board ''#####\<newline>#@$.#\<newline>#####'' = Inr scenario_board"
    by (rule parse_scenario)
  show "initial scenario_board (1, 1) (scenario_state Step_r)"
    by (rule initial_scenario)
  show "\<not> bval (width scenario_board) (height scenario_board)
         (move_guard (sorted_list_of_set (walls scenario_board)) (length (boxes scenario_board)) Step_r)
         (scenario_state Step_r)"
    by (simp add: bval_move_guard [OF lists_walls_scenario] can_move_scenario [OF initial_scenario])
  show "bval (width scenario_board) (height scenario_board)
         (move_guard (sorted_list_of_set (walls scenario_board)) (length (boxes scenario_board)) Push_R)
         (scenario_state Push_R)"
    by (simp add: bval_move_guard [OF lists_walls_scenario] can_move_scenario [OF initial_scenario])
      (simp add: scenario_state_def)
qed

text \<open>
  C1, as the code has it. The parser returns \<open>scenario_board\<close> for the board of the
  round-trip scenario, and the model printed for it declares one box: its text is the
  declarations with \<open>NUM_BOXES := 1\<close>, the four initial assignments, the case
  expressions of the player and of box 1, and a goal of one conjunct that pairs box 1 with
  the target \<open>(3, 1)\<close>. In an initial state the guard of a move's branch holds, with that
  move selected, for the push \<open>R\<close> and for no other move.
\<close>

theorem scenario_only_push_right_is_enabled:
  assumes "lists_walls iter scenario_board" and "initial scenario_board (1, 1) s"
  shows "parse_xsb_board ''#####\<newline>#@$.#\<newline>#####'' = Inr scenario_board
     \<and> player scenario_board = Some (1, 1)
     \<and> (\<forall>m. bval (width scenario_board) (height scenario_board)
              (move_guard (iter (walls scenario_board)) (length (boxes scenario_board)) m)
              (s\<lparr>move := m\<rparr>)
            \<longleftrightarrow> m = Push_R)
     \<and> snd (generate_smv_model iter scenario_board) =
         Inr (str_join [CHR 0x0A]
           ([''-- Automatically generated SMV model for Sokoban'',
             ''MODULE main'',
             ''CONSTANTS'',
             ''    WIDTH := 5;'',
             ''    HEIGHT := 3;'',
             ''    NUM_BOXES := 1;'',
             [],
             ''VAR'',
             ''    player_x : 0..WIDTH-1;'',
             ''    player_y : 0..HEIGHT-1;'',
             ''    box_x : array 1..NUM_BOXES of 0..WIDTH-1;'',
             ''    box_y : array 1..NUM_BOXES of 0..HEIGHT-1;'',
             ''    move : {l, r, u, d, L, R, U, D};'',
             [],
             ''ASSIGN'',
             ''    init(player_x) := 1;'',
             ''    init(player_y) := 1;'',
             ''    init(box_x[1]) := 2;'',
             ''    init(box_y[1]) := 1;'',
             []]
            @ show_next Player_x (player_x_branches (iter (walls scenario_board)) 1) @ [[]]
            @ show_next Player_y (player_y_branches (iter (walls scenario_board)) 1) @ [[]]
            @ show_next (Box_x 1) (box_x_branches (iter (walls scenario_board)) 1 1)
            @ show_next (Box_y 1) (box_y_branches (iter (walls scenario_board)) 1 1) @ [[]]
            @ [''DEFINE'',
               ''    win := (box_x[1] = 3 & box_y[1] = 1);'',
               [],
               ''-- LTL specification: eventually reach a winning state'',
               ''LTLSPEC'',
               ''    F win'',
               []]))"
proof (intro conjI)
  show "parse_xsb_board ''#####\<newline>#@$.#\<newline>#####'' = Inr scenario_board"
    by (rule parse_scenario)
  show "player scenario_board = Some (1, 1)"
    by (simp add: scenario_board_def)
  show "\<forall>m. bval (width scenario_board) (height scenario_board)
              (move_guard (iter (walls scenario_board)) (length (boxes scenario_board)) m)
              (s\<lparr>move := m\<rparr>)
            \<longleftrightarrow> m = Push_R"
  proof
    fix m
    have "initial scenario_board (1, 1) (s\<lparr>move := m\<rparr>)"
      using assms(2) by (simp add: initial_def init_assignments_def scenario_board_def)
    then show "bval (width scenario_board) (height scenario_board)
              (move_guard (iter (walls scenario_board)) (length (boxes scenario_board)) m)
              (s\<lparr>move := m\<rparr>)
            \<longleftrightarrow> m = Push_R"
      by (simp add: bval_move_guard [OF assms(1)] can_move_scenario)
  qed
  have n: "length (boxes scenario_board) = 1" and p: "player scenario_board = Some (1, 1)"
    and t: "sort_targets (targets scenario_board) = [(3, 1)]"
    and w: "width scenario_board = 5" and h: "height scenario_board = 3"
    and i: "init_assignments scenario_board (1, 1)
              = [(Player_x, 1), (Player_y, 1), (Box_x 1, 2), (Box_y 1, 1)]"
    by (simp_all add: scenario_board_def sort_targets_def init_assignments_def)
  have "smv_lines iter scenario_board [(3, 1)] (1, 1) =
           ([''-- Automatically generated SMV model for Sokoban'',
             ''MODULE main'',
             ''CONSTANTS'',
             ''    WIDTH := 5;'',
             ''    HEIGHT := 3;'',
             ''    NUM_BOXES := 1;'',
             [],
             ''VAR'',
             ''    player_x : 0..WIDTH-1;'',
             ''    player_y : 0..HEIGHT-1;'',
             ''    box_x : array 1..NUM_BOXES of 0..WIDTH-1;'',
             ''    box_y : array 1..NUM_BOXES of 0..HEIGHT-1;'',
             ''    move : {l, r, u, d, L, R, U, D};'',
             [],
             ''ASSIGN'',
             ''    init(player_x) := 1;'',
             ''    init(player_y) := 1;'',
             ''    init(box_x[1]) := 2;'',
             ''    init(box_y[1]) := 1;'',
             []]
            @ show_next Player_x (player_x_branches (iter (walls scenario_board)) 1) @ [[]]
            @ show_next Player_y (player_y_branches (iter (walls scenario_board)) 1) @ [[]]
            @ show_next (Box_x 1) (box_x_branches (iter (walls scenario_board)) 1 1)
            @ show_next (Box_y 1) (box_y_branches (iter (walls scenario_board)) 1 1) @ [[]]
            @ [''DEFINE'',
               ''    win := (box_x[1] = 3 & box_y[1] = 1);'',
               [],
               ''-- LTL specification: eventually reach a winning state'',
               ''LTLSPEC'',
               ''    F win'',
               []])"
    unfolding smv_lines_show [OF assms(1)] n w h i
    by (simp add: declaration_lines_def show_init_def win_lines_def win_conditions_def
        win_condition_def ltlspec_lines_def)
  then show "snd (generate_smv_model iter scenario_board) = Inr (str_join [CHR 0x0A]
           ([''-- Automatically generated SMV model for Sokoban'',
             ''MODULE main'',
             ''CONSTANTS'',
             ''    WIDTH := 5;'',
             ''    HEIGHT := 3;'',
             ''    NUM_BOXES := 1;'',
             [],
             ''VAR'',
             ''    player_x : 0..WIDTH-1;'',
             ''    player_y : 0..HEIGHT-1;'',
             ''    box_x : array 1..NUM_BOXES of 0..WIDTH-1;'',
             ''    box_y : array 1..NUM_BOXES of 0..HEIGHT-1;'',
             ''    move : {l, r, u, d, L, R, U, D};'',
             [],
             ''ASSIGN'',
             ''    init(player_x) := 1;'',
             ''    init(player_y) := 1;'',
             ''    init(box_x[1]) := 2;'',
             ''    init(box_y[1]) := 1;'',
             []]
            @ show_next Player_x (player_x_branches (iter (walls scenario_board)) 1) @ [[]]
            @ show_next Player_y (player_y_branches (iter (walls scenario_board)) 1) @ [[]]
            @ show_next (Box_x 1) (box_x_branches (iter (walls scenario_board)) 1 1)
            @ show_next (Box_y 1) (box_y_branches (iter (walls scenario_board)) 1 1) @ [[]]
            @ [''DEFINE'',
               ''    win := (box_x[1] = 3 & box_y[1] = 1);'',
               [],
               ''-- LTL specification: eventually reach a winning state'',
               ''LTLSPEC'',
               ''    F win'',
               []]))"
    by (simp only: generate_smv_model_def Let_def p t snd_conv option.case)
qed

theorem scenario_only_push_right_is_enabled_witness:
  "player scenario_board = Some (1, 1)
   \<and> (\<forall>m. bval (width scenario_board) (height scenario_board)
            (move_guard (sorted_list_of_set (walls scenario_board))
               (length (boxes scenario_board)) m)
            (scenario_state m)
          \<longleftrightarrow> m = Push_R)"
  using scenario_only_push_right_is_enabled [OF lists_walls_scenario initial_scenario [of Step_l]]
  by (simp add: scenario_state_def)

end
